theory Spec2Isabelle
  imports Main
begin

section \<open>JavaScript values\<close>

text \<open>
  The wrappers of \<^verbatim>\<open>src/wrappers/auth.ts\<close> and the resolver of
  \<^verbatim>\<open>src/resolvers/updateByIdEach.ts\<close> work on untyped request parameters, so
  the model has one type of JavaScript values. Numbers are integers (the identity claim's
  \<^verbatim>\<open>id\<close> is declared \<^verbatim>\<open>number\<close>; fractions and NaN are not modelled). An object is an
  association list of its own properties in insertion order; property reads look at own
  properties only (the prototype chain is not modelled, so a key such as
  \<^verbatim>\<open>constructor\<close> reads as undefined).
\<close>

datatype jsval =
    JUndefined
  | JNull
  | JBool bool
  | JNum int
  | JStr string
  | JArr "jsval list"
  | JObj "(string \<times> jsval) list"

text \<open>
  The failures of the source. Every \<^verbatim>\<open>throw new Error(msg)\<close> has its own constructor,
  named after its message; \<open>TypeError\<close> is the runtime's error for a property access on
  \<^verbatim>\<open>null\<close>/\<^verbatim>\<open>undefined\<close>, a call of a missing method, an iteration over a
  non-iterable and (module code is strict) a property write on a primitive.
  \<open>StoreFailure\<close> is left for the rejections of the resolvers and store operations the
  code is composed with. \<open>OutsideModel\<close> marks the one operation this value type cannot
  express: a named property written on an array.
\<close>

datatype error =
    JwtRequired          \<comment> \<open>"Access denied. Valid JWT token required"\<close>
  | NoCreatePermission   \<comment> \<open>"Access denied. You don't have permission to create this entity."\<close>
  | NoPermission         \<comment> \<open>"Access denied. You don't have permission to see this entity."\<close>
  | AccesDenied          \<comment> \<open>"Acces denied."\<close>
  | WrongDataType        \<comment> \<open>"Wrong data type."\<close>
  | WrongAuthConfig      \<comment> \<open>"Wrong auth config provided for object. ..."\<close>
  | RecordsNotArray      \<comment> \<open>"... requires args.records to be an Array and must contain at least one record"\<close>
  | RecordsEmptyRecord   \<comment> \<open>"... requires args.records to contain non-empty records, with at least one value"\<close>
  | TypeError
  | StoreFailure string
  | OutsideModel

text \<open>The failure kinds of the specification, and the kind of each failure of the code.\<close>

datatype error_kind =
    ConfigurationError | AuthenticationRequired | AccessDenied | InvalidPayload | OtherFailure

fun kind_of :: "error \<Rightarrow> error_kind" where
  "kind_of JwtRequired = AuthenticationRequired"
| "kind_of NoCreatePermission = AccessDenied"
| "kind_of NoPermission = AccessDenied"
| "kind_of AccesDenied = AccessDenied"
| "kind_of WrongDataType = InvalidPayload"
| "kind_of WrongAuthConfig = ConfigurationError"
| "kind_of RecordsNotArray = InvalidPayload"
| "kind_of RecordsEmptyRecord = InvalidPayload"
| "kind_of TypeError = OtherFailure"
| "kind_of (StoreFailure m) = OtherFailure"
| "kind_of OutsideModel = OtherFailure"

text \<open>\<^verbatim>\<open>!!v\<close>: the values that count as true.\<close>

fun truthy :: "jsval \<Rightarrow> bool" where
  "truthy JUndefined = False"
| "truthy JNull = False"
| "truthy (JBool b) = b"
| "truthy (JNum n) = (n \<noteq> 0)"
| "truthy (JStr s) = (s \<noteq> [])"
| "truthy (JArr xs) = True"
| "truthy (JObj kv) = True"

text \<open>
  \<^verbatim>\<open>a === b\<close>. Primitives are compared by value. Arrays and objects are compared by
  identity; the two operands of every comparison in the source come from two different
  places (a field of a fetched record and the id of the identity claim, or a length and
  \<^verbatim>\<open>undefined\<close>), so two arrays or two objects are never the same one.
\<close>

definition strict_eq :: "jsval \<Rightarrow> jsval \<Rightarrow> bool" where
  "strict_eq x y =
     (case x of
        JUndefined \<Rightarrow> y = JUndefined
      | JNull \<Rightarrow> y = JNull
      | JBool a \<Rightarrow> y = JBool a
      | JNum a \<Rightarrow> y = JNum a
      | JStr a \<Rightarrow> y = JStr a
      | JArr xs \<Rightarrow> False
      | JObj kv \<Rightarrow> False)"

text \<open>\<^verbatim>\<open>typeof v\<close>.\<close>

fun js_typeof :: "jsval \<Rightarrow> string" where
  "js_typeof JUndefined = ''undefined''"
| "js_typeof JNull = ''object''"
| "js_typeof (JBool b) = ''boolean''"
| "js_typeof (JNum n) = ''number''"
| "js_typeof (JStr s) = ''string''"
| "js_typeof (JArr xs) = ''object''"
| "js_typeof (JObj kv) = ''object''"

text \<open>Reading and writing a property of an object literal, given as its association list.\<close>

definition own_prop :: "(string \<times> jsval) list \<Rightarrow> string \<Rightarrow> jsval" where
  "own_prop kv k = (case map_of kv k of None \<Rightarrow> JUndefined | Some v \<Rightarrow> v)"

fun set_prop :: "(string \<times> jsval) list \<Rightarrow> string \<Rightarrow> jsval \<Rightarrow> (string \<times> jsval) list" where
  "set_prop [] k v = [(k, v)]"
| "set_prop ((k', v') # kv) k v = (if k' = k then (k, v) # kv else (k', v') # set_prop kv k v)"

text \<open>
  An array index as a property key: the decimal digits of a natural number, without
  leading zeros.
\<close>

definition digit_of :: "char \<Rightarrow> nat option" where
  "digit_of c =
     (let n = (of_char c :: nat) in if 48 \<le> n \<and> n \<le> 57 then Some (n - 48) else None)"

fun digits_value :: "nat \<Rightarrow> string \<Rightarrow> nat option" where
  "digits_value acc [] = Some acc"
| "digits_value acc (c # cs) =
     (case digit_of c of None \<Rightarrow> None | Some d \<Rightarrow> digits_value (10 * acc + d) cs)"

definition array_index :: "string \<Rightarrow> nat option" where
  "array_index k =
     (if k = [] then None
      else if hd k = CHR ''0'' \<and> tl k \<noteq> [] then None
      else digits_value 0 k)"

text \<open>
  \<^verbatim>\<open>v[k]\<close> and \<^verbatim>\<open>v.k\<close>: a TypeError on \<^verbatim>\<open>null\<close> and \<^verbatim>\<open>undefined\<close>, the own
  property otherwise (an array and a string have \<^verbatim>\<open>length\<close> and their indices).
\<close>

fun js_get :: "jsval \<Rightarrow> string \<Rightarrow> error + jsval" where
  "js_get JUndefined k = Inl TypeError"
| "js_get JNull k = Inl TypeError"
| "js_get (JBool b) k = Inr JUndefined"
| "js_get (JNum n) k = Inr JUndefined"
| "js_get (JStr s) k =
     (if k = ''length'' then Inr (JNum (int (length s)))
      else case array_index k of
        None \<Rightarrow> Inr JUndefined
      | Some i \<Rightarrow> if i < length s then Inr (JStr [s ! i]) else Inr JUndefined)"
| "js_get (JArr xs) k =
     (if k = ''length'' then Inr (JNum (int (length xs)))
      else case array_index k of
        None \<Rightarrow> Inr JUndefined
      | Some i \<Rightarrow> if i < length xs then Inr (xs ! i) else Inr JUndefined)"
| "js_get (JObj kv) k = Inr (own_prop kv k)"

text \<open>\<^verbatim>\<open>v[k] = x\<close>, returning the value \<open>v\<close> stands for afterwards.\<close>

fun js_set :: "jsval \<Rightarrow> string \<Rightarrow> jsval \<Rightarrow> error + jsval" where
  "js_set (JObj kv) k x = Inr (JObj (set_prop kv k x))"
| "js_set (JArr xs) k x = Inl OutsideModel"
| "js_set v k x = Inl TypeError"

text \<open>The elements a \<^verbatim>\<open>for (const x of v)\<close> loop visits.\<close>

fun js_iterate :: "jsval \<Rightarrow> error + jsval list" where
  "js_iterate (JArr xs) = Inr xs"
| "js_iterate (JStr s) = Inr (map (\<lambda>c. JStr [c]) s)"
| "js_iterate v = Inl TypeError"

section \<open>Policy, identity claim, request parameters\<close>

text \<open>\<^verbatim>\<open>EntityAuthConfig\<close>; the optional \<^verbatim>\<open>userIdField\<close> is \<open>None\<close> when it is left out.\<close>

record EntityAuthConfig =
  readAll :: "string list"
  writeAll :: "string list"
  writeSelf :: "string list"
  readSelf :: "string list"
  userIdField :: "string option"

text \<open>
  \<^verbatim>\<open>authConfig.userIdField!\<close> used as a computed key: the non-null assertion is erased
  at run time, and a missing field gives the key \<^verbatim>\<open>"undefined"\<close>.
\<close>

definition owner_key :: "EntityAuthConfig \<Rightarrow> string" where
  "owner_key authConfig = (case userIdField authConfig of None \<Rightarrow> ''undefined'' | Some f \<Rightarrow> f)"

text \<open>
  The resolve parameters the wrappers read and write: \<^verbatim>\<open>rp.args\<close> and
  \<^verbatim>\<open>rp.projection\<close> are objects (the schema layer always builds them), \<^verbatim>\<open>rp.context\<close>
  is any value, the field \<open>rp_context\<close> (the server builds \<^verbatim>\<open>{ user }\<close>; the auxiliary fetches of the wrappers are
  called without a context).
\<close>

record rp =
  args :: "(string \<times> jsval) list"
  projection :: "(string \<times> jsval) list"
  rp_context :: jsval

text \<open>
  A resolver runs on the resolve parameters and on the world \<open>'w\<close> behind it (the store,
  the subscription broker). It fulfils with a value or rejects with an error, and hands
  back the resolve parameters as its in-place writes left them, together with the world.
\<close>

type_synonym 'w resolver = "rp \<Rightarrow> 'w \<Rightarrow> (error + jsval) \<times> rp \<times> 'w"

subsection \<open>Identity validator\<close>

definition isArrayOfStrings :: "jsval \<Rightarrow> bool" where
  "isArrayOfStrings v =
     (case v of JArr xs \<Rightarrow> list_all (\<lambda>item. js_typeof item = ''string'') xs | _ \<Rightarrow> False)"

definition isValidJwtPayload :: "jsval \<Rightarrow> bool" where
  "isValidJwtPayload jwt =
     (if \<not> truthy jwt then False
      else case (js_get jwt ''id'', js_get jwt ''permissions'') of
        (Inr i, Inr p) \<Rightarrow> truthy i \<and> isArrayOfStrings p
      | _ \<Rightarrow> False)"

subsection \<open>Permission evaluator\<close>

text \<open>
  \<^verbatim>\<open>_.intersection(a, b)\<close>: the distinct values of \<open>a\<close> that occur in \<open>b\<close>, in the order
  of \<open>a\<close>; a first argument that is not an array counts as empty. The second argument is
  one of the policy's role lists, so only strings can match.
\<close>

fun uniq :: "'a list \<Rightarrow> 'a list" where
  "uniq [] = []"
| "uniq (x # xs) = x # filter (\<lambda>y. y \<noteq> x) (uniq xs)"

definition intersection :: "jsval \<Rightarrow> string list \<Rightarrow> jsval list" where
  "intersection a b =
     (case a of JArr xs \<Rightarrow> uniq (filter (\<lambda>x. x \<in> set (map JStr b)) xs) | _ \<Rightarrow> [])"

definition permissions_of :: "jsval \<Rightarrow> jsval" where
  "permissions_of jwt = (case js_get jwt ''permissions'' of Inr p \<Rightarrow> p | Inl e \<Rightarrow> JUndefined)"

definition checkIfCanReadAll :: "jsval \<Rightarrow> EntityAuthConfig \<Rightarrow> bool" where
  "checkIfCanReadAll jwt authConfig =
     (length (intersection (permissions_of jwt) (readAll authConfig)) \<noteq> 0)"

definition checkIfCanWriteAll :: "jsval \<Rightarrow> EntityAuthConfig \<Rightarrow> bool" where
  "checkIfCanWriteAll jwt authConfig =
     (length (intersection (permissions_of jwt) (writeAll authConfig)) \<noteq> 0)"

definition checkIfCanReadSelf :: "jsval \<Rightarrow> EntityAuthConfig \<Rightarrow> bool" where
  "checkIfCanReadSelf jwt authConfig =
     (length (intersection (permissions_of jwt) (readSelf authConfig)) \<noteq> 0)"

definition checkIfCanWriteSelf :: "jsval \<Rightarrow> EntityAuthConfig \<Rightarrow> bool" where
  "checkIfCanWriteSelf jwt authConfig =
     (length (intersection (permissions_of jwt) (writeSelf authConfig)) \<noteq> 0)"

subsection \<open>Policy validation\<close>

definition isAuthConfigImpactful :: "EntityAuthConfig option \<Rightarrow> bool" where
  "isAuthConfigImpactful authConfig = (case authConfig of None \<Rightarrow> False | Some c \<Rightarrow> True)"

text \<open>\<^verbatim>\<open>!authConfig.userIdField\<close> holds for a missing field and for the empty string.\<close>

definition validateAuthObject :: "EntityAuthConfig \<Rightarrow> error + unit" where
  "validateAuthObject authConfig =
     (if (case userIdField authConfig of None \<Rightarrow> True | Some f \<Rightarrow> f = [])
         \<and> (length (readSelf authConfig) \<noteq> 0 \<or> length (writeSelf authConfig) \<noteq> 0)
      then Inl WrongAuthConfig
      else Inr ())"

section \<open>Resolver wrappers\<close>

text \<open>\<^verbatim>\<open>rp.context.user\<close> and \<^verbatim>\<open>rp.context.user.id\<close>.\<close>

definition context_user :: "rp \<Rightarrow> error + jsval" where
  "context_user r = js_get (rp_context r) ''user''"

definition context_user_id :: "rp \<Rightarrow> error + jsval" where
  "context_user_id r = (case context_user r of Inl e \<Rightarrow> Inl e | Inr u \<Rightarrow> js_get u ''id'')"

text \<open>
  The parameters of an auxiliary fetch, \<^verbatim>\<open>{ args: a, projection: { [userIdField]: {} } }\<close>:
  there is no context.
\<close>

definition fetch_params :: "(string \<times> jsval) list \<Rightarrow> EntityAuthConfig \<Rightarrow> rp" where
  "fetch_params a authConfig =
     \<lparr>args = a, projection = [(owner_key authConfig, JObj [])], rp_context = JUndefined\<rparr>"

subsection \<open>wrapCreateAuth\<close>

text \<open>
  \<^verbatim>\<open>for (const obj of records) obj[key] = id\<close>: the records as the loop leaves them,
  and the error that stopped it, if one did. The records before the failing one stay
  stamped.
\<close>

fun stamp_each :: "string \<Rightarrow> jsval \<Rightarrow> jsval list \<Rightarrow> jsval list \<times> error option" where
  "stamp_each k v [] = ([], None)"
| "stamp_each k v (obj # objs) =
     (case js_set obj k v of
        Inl e \<Rightarrow> (obj # objs, Some e)
      | Inr obj' \<Rightarrow> (case stamp_each k v objs of (objs', r) \<Rightarrow> (obj' # objs', r)))"

fun stamp_records :: "string \<Rightarrow> jsval \<Rightarrow> jsval \<Rightarrow> jsval \<times> error option" where
  "stamp_records k v (JArr objs) = (case stamp_each k v objs of (objs', r) \<Rightarrow> (JArr objs', r))"
| "stamp_records k v (JStr s) = (JStr s, if s = [] then None else Some TypeError)"
| "stamp_records k v records = (records, Some TypeError)"

definition wrapCreateAuth_resolve :: "'w resolver \<Rightarrow> EntityAuthConfig \<Rightarrow> 'w resolver" where
  "wrapCreateAuth_resolve next authConfig r w =
     (case context_user r of
        Inl e \<Rightarrow> (Inl e, r, w)
      | Inr user \<Rightarrow>
          if \<not> isValidJwtPayload user then (Inl JwtRequired, r, w)
          else if \<not> checkIfCanWriteSelf user authConfig \<and> \<not> checkIfCanWriteAll user authConfig
            then (Inl NoCreatePermission, r, w)
          else if truthy (own_prop (args r) ''records'') then
            (case context_user_id r of
               Inl e \<Rightarrow> (Inl e, r, w)
             | Inr uid \<Rightarrow>
                 (case stamp_records (owner_key authConfig) uid (own_prop (args r) ''records'') of
                    (records', Some e) \<Rightarrow>
                      (Inl e, r\<lparr>args := set_prop (args r) ''records'' records'\<rparr>, w)
                  | (records', None) \<Rightarrow>
                      next (r\<lparr>args := set_prop (args r) ''records'' records'\<rparr>) w))
          else if truthy (own_prop (args r) ''record'') then
            (case context_user_id r of
               Inl e \<Rightarrow> (Inl e, r, w)
             | Inr uid \<Rightarrow>
                 (case js_set (own_prop (args r) ''record'') (owner_key authConfig) uid of
                    Inl e \<Rightarrow> (Inl e, r, w)
                  | Inr record' \<Rightarrow> next (r\<lparr>args := set_prop (args r) ''record'' record'\<rparr>) w))
          else (Inl WrongDataType, r, w))"

definition wrapCreateAuth ::
  "'w resolver \<Rightarrow> EntityAuthConfig option \<Rightarrow> error + 'w resolver" where
  "wrapCreateAuth resolver authConfig =
     (if \<not> isAuthConfigImpactful authConfig then Inr resolver
      else case authConfig of
        None \<Rightarrow> Inl TypeError
      | Some c \<Rightarrow>
          (case validateAuthObject c of
             Inl e \<Rightarrow> Inl e
           | Inr u \<Rightarrow> Inr (wrapCreateAuth_resolve resolver c)))"

subsection \<open>authMutationByIdsEach\<close>

text \<open>\<^verbatim>\<open>records.map((record) => record._id)\<close>\<close>

fun map_ids :: "jsval list \<Rightarrow> error + jsval list" where
  "map_ids [] = Inr []"
| "map_ids (record # records) =
     (case js_get record ''_id'' of
        Inl e \<Rightarrow> Inl e
      | Inr i \<Rightarrow> (case map_ids records of Inl e \<Rightarrow> Inl e | Inr ids \<Rightarrow> Inr (i # ids)))"

text \<open>
  \<^verbatim>\<open>items.filter((item) => item[key] === rp.context.user.id)\<close>; the id is read for
  every item, after the item's field.
\<close>

fun filter_owned :: "string \<Rightarrow> (error + jsval) \<Rightarrow> jsval list \<Rightarrow> error + jsval list" where
  "filter_owned k uid [] = Inr []"
| "filter_owned k uid (item # items) =
     (case js_get item k of
        Inl e \<Rightarrow> Inl e
      | Inr owner \<Rightarrow>
          (case uid of
             Inl e \<Rightarrow> Inl e
           | Inr u \<Rightarrow>
               (case filter_owned k uid items of
                  Inl e \<Rightarrow> Inl e
                | Inr rest \<Rightarrow> Inr (if strict_eq owner u then item # rest else rest))))"

definition authMutationByIdsEach_resolve ::
  "'w resolver \<Rightarrow> EntityAuthConfig \<Rightarrow> 'w resolver \<Rightarrow> 'w resolver" where
  "authMutationByIdsEach_resolve next authConfig findByIds r w =
     (case context_user r of
        Inl e \<Rightarrow> (Inl e, r, w)
      | Inr user \<Rightarrow>
          if \<not> isValidJwtPayload user then (Inl JwtRequired, r, w)
          else if checkIfCanWriteAll user authConfig then next r w
          else if \<not> checkIfCanWriteSelf user authConfig then (Inl NoPermission, r, w)
          else
            (case own_prop (args r) ''records'' of
               JArr records \<Rightarrow>
                 (case map_ids records of
                    Inl e \<Rightarrow> (Inl e, r, w)
                  | Inr ids \<Rightarrow>
                      (case findByIds (fetch_params [(''_ids'', JArr ids)] authConfig) w of
                         (Inl e, q, w1) \<Rightarrow> (Inl e, r, w1)
                       | (Inr (JArr foundRecords), q, w1) \<Rightarrow>
                           (case filter_owned (owner_key authConfig) (context_user_id r)
                                   foundRecords of
                              Inl e \<Rightarrow> (Inl e, r, w1)
                            | Inr owned \<Rightarrow>
                                if length owned \<noteq> length foundRecords
                                then (Inl AccesDenied, r, w1)
                                else next r w1)
                       | (Inr other, q, w1) \<Rightarrow> (Inl TypeError, r, w1)))
             | other \<Rightarrow> (Inl TypeError, r, w)))"

definition authMutationByIdsEach ::
  "'w resolver \<Rightarrow> EntityAuthConfig option \<Rightarrow> 'w resolver \<Rightarrow> error + 'w resolver" where
  "authMutationByIdsEach resolver authConfig findByIds =
     (if \<not> isAuthConfigImpactful authConfig then Inr resolver
      else case authConfig of
        None \<Rightarrow> Inl TypeError
      | Some c \<Rightarrow>
          (case validateAuthObject c of
             Inl e \<Rightarrow> Inl e
           | Inr u \<Rightarrow> Inr (authMutationByIdsEach_resolve resolver c findByIds)))"

subsection \<open>wrapMutationAuth\<close>

text \<open>
  The counting loop \<^verbatim>\<open>for (const obj of foundData) if (obj[key] === id) validCount++\<close>.
\<close>

fun count_valid :: "string \<Rightarrow> (error + jsval) \<Rightarrow> jsval list \<Rightarrow> nat \<Rightarrow> error + nat" where
  "count_valid k uid [] validCount = Inr validCount"
| "count_valid k uid (obj # objs) validCount =
     (case js_get obj k of
        Inl e \<Rightarrow> Inl e
      | Inr owner \<Rightarrow>
          (case uid of
             Inl e \<Rightarrow> Inl e
           | Inr u \<Rightarrow>
               count_valid k uid objs (if strict_eq owner u then validCount + 1 else validCount)))"

text \<open>
  The fetch is called with \<^verbatim>\<open>rp.args\<close> itself, so what it writes into the arguments
  is seen by the wrapped resolver.
\<close>

definition wrapMutationAuth_resolve ::
  "'w resolver \<Rightarrow> EntityAuthConfig \<Rightarrow> 'w resolver \<Rightarrow> 'w resolver" where
  "wrapMutationAuth_resolve next authConfig findById r w =
     (case context_user r of
        Inl e \<Rightarrow> (Inl e, r, w)
      | Inr user \<Rightarrow>
          if \<not> isValidJwtPayload user then (Inl JwtRequired, r, w)
          else if checkIfCanWriteAll user authConfig then next r w
          else if \<not> checkIfCanWriteSelf user authConfig then (Inl NoPermission, r, w)
          else
            (case findById (fetch_params (args r) authConfig) w of
               (Inl e, q, w1) \<Rightarrow> (Inl e, r\<lparr>args := args q\<rparr>, w1)
             | (Inr foundData, q, w1) \<Rightarrow>
                 (let r1 = r\<lparr>args := args q\<rparr> in
                  case js_get foundData ''length'' of
                    Inl e \<Rightarrow> (Inl e, r1, w1)
                  | Inr len \<Rightarrow>
                      if \<not> strict_eq len JUndefined then
                        (case js_iterate foundData of
                           Inl e \<Rightarrow> (Inl e, r1, w1)
                         | Inr objs \<Rightarrow>
                             (case count_valid (owner_key authConfig) (context_user_id r1) objs 0 of
                                Inl e \<Rightarrow> (Inl e, r1, w1)
                              | Inr validCount \<Rightarrow>
                                  if \<not> strict_eq (JNum (int validCount)) len
                                  then (Inl AccesDenied, r1, w1)
                                  else next r1 w1))
                      else
                        (case js_get foundData (owner_key authConfig) of
                           Inl e \<Rightarrow> (Inl e, r1, w1)
                         | Inr owner \<Rightarrow>
                             (case context_user_id r1 of
                                Inl e \<Rightarrow> (Inl e, r1, w1)
                              | Inr uid \<Rightarrow>
                                  if \<not> strict_eq owner uid
                                  then (Inl AccesDenied, r1, w1)
                                  else next r1 w1)))))"

definition wrapMutationAuth ::
  "'w resolver \<Rightarrow> EntityAuthConfig option \<Rightarrow> 'w resolver \<Rightarrow> error + 'w resolver" where
  "wrapMutationAuth resolver authConfig findById =
     (if \<not> isAuthConfigImpactful authConfig then Inr resolver
      else case authConfig of
        None \<Rightarrow> Inl TypeError
      | Some c \<Rightarrow>
          (case validateAuthObject c of
             Inl e \<Rightarrow> Inl e
           | Inr u \<Rightarrow> Inr (wrapMutationAuth_resolve resolver c findById)))"

subsection \<open>wrapMutationWithFilterAuth and authQueryWithFilterResolver\<close>

text \<open>
  Both write the owner filter the same way (the two branches stand in the opposite order
  in the source): a filter that counts as true gets the field written into it, any other
  is replaced by \<^verbatim>\<open>{ [userIdField]: id }\<close>.
\<close>

definition wrapMutationWithFilterAuth_resolve ::
  "'w resolver \<Rightarrow> EntityAuthConfig \<Rightarrow> 'w resolver \<Rightarrow> 'w resolver" where
  "wrapMutationWithFilterAuth_resolve next authConfig findById r w =
     (case context_user r of
        Inl e \<Rightarrow> (Inl e, r, w)
      | Inr user \<Rightarrow>
          if \<not> isValidJwtPayload user then (Inl JwtRequired, r, w)
          else if checkIfCanWriteAll user authConfig then next r w
          else if \<not> checkIfCanWriteSelf user authConfig then (Inl NoPermission, r, w)
          else
            (case context_user_id r of
               Inl e \<Rightarrow> (Inl e, r, w)
             | Inr uid \<Rightarrow>
                 if truthy (own_prop (args r) ''filter'') then
                   (case js_set (own_prop (args r) ''filter'') (owner_key authConfig) uid of
                      Inl e \<Rightarrow> (Inl e, r, w)
                    | Inr filter' \<Rightarrow> next (r\<lparr>args := set_prop (args r) ''filter'' filter'\<rparr>) w)
                 else
                   next (r\<lparr>args := set_prop (args r) ''filter''
                                      (JObj [(owner_key authConfig, uid)])\<rparr>) w))"

definition wrapMutationWithFilterAuth ::
  "'w resolver \<Rightarrow> EntityAuthConfig option \<Rightarrow> 'w resolver \<Rightarrow> error + 'w resolver" where
  "wrapMutationWithFilterAuth resolver authConfig findById =
     (if \<not> isAuthConfigImpactful authConfig then Inr resolver
      else case authConfig of
        None \<Rightarrow> Inl TypeError
      | Some c \<Rightarrow>
          (case validateAuthObject c of
             Inl e \<Rightarrow> Inl e
           | Inr u \<Rightarrow> Inr (wrapMutationWithFilterAuth_resolve resolver c findById)))"

definition authQueryWithFilterResolver_resolve ::
  "'w resolver \<Rightarrow> EntityAuthConfig \<Rightarrow> 'w resolver" where
  "authQueryWithFilterResolver_resolve next authConfig r w =
     (case context_user r of
        Inl e \<Rightarrow> (Inl e, r, w)
      | Inr user \<Rightarrow>
          if \<not> isValidJwtPayload user then (Inl JwtRequired, r, w)
          else if checkIfCanReadAll user authConfig then next r w
          else if \<not> checkIfCanReadSelf user authConfig then (Inl NoPermission, r, w)
          else
            (case context_user_id r of
               Inl e \<Rightarrow> (Inl e, r, w)
             | Inr uid \<Rightarrow>
                 if \<not> truthy (own_prop (args r) ''filter'') then
                   next (r\<lparr>args := set_prop (args r) ''filter''
                                      (JObj [(owner_key authConfig, uid)])\<rparr>) w
                 else
                   (case js_set (own_prop (args r) ''filter'') (owner_key authConfig) uid of
                      Inl e \<Rightarrow> (Inl e, r, w)
                    | Inr filter' \<Rightarrow> next (r\<lparr>args := set_prop (args r) ''filter'' filter'\<rparr>) w)))"

definition authQueryWithFilterResolver ::
  "'w resolver \<Rightarrow> EntityAuthConfig option \<Rightarrow> error + 'w resolver" where
  "authQueryWithFilterResolver resolver authConfig =
     (if \<not> isAuthConfigImpactful authConfig then Inr resolver
      else case authConfig of
        None \<Rightarrow> Inl TypeError
      | Some c \<Rightarrow>
          (case validateAuthObject c of
             Inl e \<Rightarrow> Inl e
           | Inr u \<Rightarrow> Inr (authQueryWithFilterResolver_resolve resolver c)))"

subsection \<open>authQueryByIdsResolver and authQueryOneResolver\<close>

text \<open>\<^verbatim>\<open>if (!rp.projection[key]) rp.projection[key] = {}\<close>\<close>

definition project_owner :: "EntityAuthConfig \<Rightarrow> rp \<Rightarrow> rp" where
  "project_owner authConfig r =
     (if \<not> truthy (own_prop (projection r) (owner_key authConfig))
      then r\<lparr>projection := set_prop (projection r) (owner_key authConfig) (JObj [])\<rparr>
      else r)"

definition authQueryByIdsResolver_resolve ::
  "'w resolver \<Rightarrow> EntityAuthConfig \<Rightarrow> 'w resolver" where
  "authQueryByIdsResolver_resolve next authConfig r w =
     (case context_user r of
        Inl e \<Rightarrow> (Inl e, r, w)
      | Inr user \<Rightarrow>
          if \<not> isValidJwtPayload user then (Inl JwtRequired, r, w)
          else if checkIfCanReadAll user authConfig then next r w
          else if \<not> checkIfCanReadSelf user authConfig then (Inl NoPermission, r, w)
          else
            (case next (project_owner authConfig r) w of
               (Inl e, r2, w2) \<Rightarrow> (Inl e, r2, w2)
             | (Inr (JArr result), r2, w2) \<Rightarrow>
                 (case filter_owned (owner_key authConfig) (context_user_id r2) result of
                    Inl e \<Rightarrow> (Inl e, r2, w2)
                  | Inr authResult \<Rightarrow> (Inr (JArr authResult), r2, w2))
             | (Inr other, r2, w2) \<Rightarrow> (Inl TypeError, r2, w2)))"

definition authQueryByIdsResolver ::
  "'w resolver \<Rightarrow> EntityAuthConfig option \<Rightarrow> error + 'w resolver" where
  "authQueryByIdsResolver resolver authConfig =
     (if \<not> isAuthConfigImpactful authConfig then Inr resolver
      else case authConfig of
        None \<Rightarrow> Inl TypeError
      | Some c \<Rightarrow>
          (case validateAuthObject c of
             Inl e \<Rightarrow> Inl e
           | Inr u \<Rightarrow> Inr (authQueryByIdsResolver_resolve resolver c)))"

definition authQueryOneResolver_resolve ::
  "'w resolver \<Rightarrow> EntityAuthConfig \<Rightarrow> 'w resolver" where
  "authQueryOneResolver_resolve next authConfig r w =
     (case context_user r of
        Inl e \<Rightarrow> (Inl e, r, w)
      | Inr user \<Rightarrow>
          if \<not> isValidJwtPayload user then (Inl JwtRequired, r, w)
          else if checkIfCanReadAll user authConfig then next r w
          else if \<not> checkIfCanReadSelf user authConfig then (Inl NoPermission, r, w)
          else
            (case next (project_owner authConfig r) w of
               (Inl e, r2, w2) \<Rightarrow> (Inl e, r2, w2)
             | (Inr result, r2, w2) \<Rightarrow>
                 if \<not> truthy result then (Inr JNull, r2, w2)
                 else
                   (case js_get result (owner_key authConfig) of
                      Inl e \<Rightarrow> (Inl e, r2, w2)
                    | Inr owner \<Rightarrow>
                        (case context_user_id r2 of
                           Inl e \<Rightarrow> (Inl e, r2, w2)
                         | Inr uid \<Rightarrow>
                             (Inr (if strict_eq owner uid then result else JNull), r2, w2)))))"

definition authQueryOneResolver ::
  "'w resolver \<Rightarrow> EntityAuthConfig option \<Rightarrow> error + 'w resolver" where
  "authQueryOneResolver resolver authConfig =
     (if \<not> isAuthConfigImpactful authConfig then Inr resolver
      else case authConfig of
        None \<Rightarrow> Inl TypeError
      | Some c \<Rightarrow>
          (case validateAuthObject c of
             Inl e \<Rightarrow> Inl e
           | Inr u \<Rightarrow> Inr (authQueryOneResolver_resolve resolver c)))"

section \<open>The resolver updateByIdEach\<close>

text \<open>
  The mongoose model the resolver is built over: the document constructor
  \<^verbatim>\<open>new model(record)\<close>, \<^verbatim>\<open>model.findByIdAndUpdate(id, doc)\<close> and
  \<^verbatim>\<open>model.findById(id)\<close>. Each runs on the world and may reject.
\<close>

record 'w model =
  model_new :: "jsval \<Rightarrow> 'w \<Rightarrow> (error + jsval) \<times> 'w"
  model_findByIdAndUpdate :: "jsval \<Rightarrow> jsval \<Rightarrow> 'w \<Rightarrow> (error + jsval) \<times> 'w"
  model_findById :: "jsval \<Rightarrow> 'w \<Rightarrow> (error + jsval) \<times> 'w"

text \<open>The optional hook \<^verbatim>\<open>resolveParams.beforeRecordMutate(doc, resolveParams)\<close>.\<close>

type_synonym 'w hook = "jsval \<Rightarrow> rp \<Rightarrow> 'w \<Rightarrow> (error + jsval) \<times> rp \<times> 'w"

text \<open>\<^verbatim>\<open>Object.keys(v).length\<close>\<close>

fun object_keys_length :: "jsval \<Rightarrow> error + nat" where
  "object_keys_length JUndefined = Inl TypeError"
| "object_keys_length JNull = Inl TypeError"
| "object_keys_length (JBool b) = Inr 0"
| "object_keys_length (JNum n) = Inr 0"
| "object_keys_length (JStr s) = Inr (length s)"
| "object_keys_length (JArr xs) = Inr (length xs)"
| "object_keys_length (JObj kv) = Inr (length (remdups (map fst kv)))"

text \<open>The validation loop over the records.\<close>

fun validate_records :: "jsval list \<Rightarrow> error + unit" where
  "validate_records [] = Inr ()"
| "validate_records (record # records) =
     (if \<not> (js_typeof record = ''object'') then Inl RecordsEmptyRecord
      else case object_keys_length record of
        Inl e \<Rightarrow> Inl e
      | Inr n \<Rightarrow> if n = 0 then Inl RecordsEmptyRecord else validate_records records)"

text \<open>The loop that builds the documents, one record after the other.\<close>

fun build_docs ::
  "'w model \<Rightarrow> 'w hook option \<Rightarrow> jsval list \<Rightarrow> rp \<Rightarrow> 'w \<Rightarrow> (error + jsval list) \<times> rp \<times> 'w" where
  "build_docs m beforeRecordMutate [] r w = (Inr [], r, w)"
| "build_docs m beforeRecordMutate (record # records) r w =
     (case model_new m record w of
        (Inl e, w1) \<Rightarrow> (Inl e, r, w1)
      | (Inr doc, w1) \<Rightarrow>
          (case beforeRecordMutate of
             None \<Rightarrow>
               (case build_docs m beforeRecordMutate records r w1 of
                  (Inl e, r2, w2) \<Rightarrow> (Inl e, r2, w2)
                | (Inr docs, r2, w2) \<Rightarrow> (Inr (doc # docs), r2, w2))
           | Some h \<Rightarrow>
               (case h doc r w1 of
                  (Inl e, r1, w2) \<Rightarrow> (Inl e, r1, w2)
                | (Inr doc', r1, w2) \<Rightarrow>
                    (case build_docs m beforeRecordMutate records r1 w2 of
                       (Inl e, r2, w3) \<Rightarrow> (Inl e, r2, w3)
                     | (Inr docs, r2, w3) \<Rightarrow> (Inr (doc' # docs), r2, w3)))))"

text \<open>
  \<^verbatim>\<open>Promise.all(docs.map(async (doc) => { ... }))\<close>. Every document has a task of two
  store operations, the update and the fetch of the updated record. Mapping the
  documents reads each \<^verbatim>\<open>doc._id\<close> and starts the updates; from there on the store
  decides in which order the operations of the tasks complete. That order is the
  schedule, a list of task numbers: each entry lets that task do its next operation (an
  entry for a settled task, or beyond the last task, does nothing). After the schedule
  the tasks still open are completed in turn, so every order of completion is the run of
  some schedule. The first rejection rejects the whole call.
\<close>

datatype task = Updating jsval jsval | Refetching jsval | Settled jsval

fun start_tasks :: "jsval list \<Rightarrow> error + task list" where
  "start_tasks [] = Inr []"
| "start_tasks (doc # docs) =
     (case js_get doc ''_id'' of
        Inl e \<Rightarrow> Inl e
      | Inr i \<Rightarrow> (case start_tasks docs of Inl e \<Rightarrow> Inl e | Inr ts \<Rightarrow> Inr (Updating i doc # ts)))"

fun step_task :: "'w model \<Rightarrow> task \<Rightarrow> 'w \<Rightarrow> (error + task) \<times> 'w" where
  "step_task m (Updating i doc) w =
     (case model_findByIdAndUpdate m i doc w of
        (Inl e, w1) \<Rightarrow> (Inl e, w1)
      | (Inr u, w1) \<Rightarrow> (Inr (Refetching doc), w1))"
| "step_task m (Refetching doc) w =
     (case js_get doc ''_id'' of
        Inl e \<Rightarrow> (Inl e, w)
      | Inr i \<Rightarrow>
          (case model_findById m i w of
             (Inl e, w1) \<Rightarrow> (Inl e, w1)
           | (Inr updatedRecord, w1) \<Rightarrow> (Inr (Settled updatedRecord), w1)))"
| "step_task m (Settled v) w = (Inr (Settled v), w)"

fun run_schedule :: "'w model \<Rightarrow> nat list \<Rightarrow> task list \<Rightarrow> 'w \<Rightarrow> (error + task list) \<times> 'w" where
  "run_schedule m [] ts w = (Inr ts, w)"
| "run_schedule m (i # sched) ts w =
     (if i < length ts then
        (case step_task m (ts ! i) w of
           (Inl e, w1) \<Rightarrow> (Inl e, w1)
         | (Inr t, w1) \<Rightarrow> run_schedule m sched (ts[i := t]) w1)
      else run_schedule m sched ts w)"

definition drain :: "nat \<Rightarrow> nat list" where
  "drain n = concat (map (\<lambda>i. [i, i]) [0..<n])"

definition settled_values :: "task list \<Rightarrow> jsval list" where
  "settled_values ts = concat (map (\<lambda>t. case t of Settled v \<Rightarrow> [v] | _ \<Rightarrow> []) ts)"

text \<open>The \<^verbatim>\<open>resolve\<close> function of the resolver, for a model, a hook and a schedule.\<close>

definition updateByIdEach_resolve ::
  "'w model \<Rightarrow> 'w hook option \<Rightarrow> nat list \<Rightarrow> 'w resolver" where
  "updateByIdEach_resolve m beforeRecordMutate sched resolveParams w =
     (case own_prop (args resolveParams) ''records'' of
        JArr recordData \<Rightarrow>
          if length recordData = 0 then (Inl RecordsNotArray, resolveParams, w)
          else
            (case validate_records recordData of
               Inl e \<Rightarrow> (Inl e, resolveParams, w)
             | Inr u \<Rightarrow>
                 (case build_docs m beforeRecordMutate recordData resolveParams w of
                    (Inl e, r1, w1) \<Rightarrow> (Inl e, r1, w1)
                  | (Inr docs, r1, w1) \<Rightarrow>
                      (case start_tasks docs of
                         Inl e \<Rightarrow> (Inl e, r1, w1)
                       | Inr ts \<Rightarrow>
                           (case run_schedule m (sched @ drain (length ts)) ts w1 of
                              (Inl e, w2) \<Rightarrow> (Inl e, r1, w2)
                            | (Inr ts', w2) \<Rightarrow>
                                (Inr (JObj [(''records'', JArr (settled_values ts')),
                                            (''updatedCount'', JNum (int (length docs)))]),
                                 r1, w2)))))
      | other \<Rightarrow> (Inl RecordsNotArray, resolveParams, w))"

section \<open>Concrete requests, policies and resolvers\<close>

text \<open>The values the closed theorems below are evaluated on.\<close>

definition claim_of :: "int \<Rightarrow> string list \<Rightarrow> jsval" where
  "claim_of i roles = JObj [(''id'', JNum i), (''permissions'', JArr (map JStr roles))]"

definition request :: "(string \<times> jsval) list \<Rightarrow> jsval \<Rightarrow> rp" where
  "request a user = \<lparr>args = a, projection = [], rp_context = JObj [(''user'', user)]\<rparr>"

text \<open>A resolver that answers with the arguments it was called with.\<close>

definition echo :: "unit resolver" where
  "echo r w = (Inr (JObj (args r)), r, w)"

text \<open>A resolver that answers with a fixed value and writes its name into the world.\<close>

definition logged :: "string \<Rightarrow> jsval \<Rightarrow> string list resolver" where
  "logged name result r w = (Inr result, r, w @ [name])"

text \<open>
  Fetches over a list of stored records, logged as \<^verbatim>\<open>fetch\<close>: the first record with the
  \<^verbatim>\<open>_id\<close> of the arguments (or \<^verbatim>\<open>null\<close>), and the records whose \<^verbatim>\<open>_id\<close> is among
  the \<^verbatim>\<open>_ids\<close> of the arguments.
\<close>

definition fetch_one :: "jsval list \<Rightarrow> string list resolver" where
  "fetch_one store r w =
     (Inr (case filter (\<lambda>x. js_get x ''_id'' = Inr (own_prop (args r) ''_id'')) store of
             [] \<Rightarrow> JNull
           | x # xs \<Rightarrow> x),
      r, w @ [''fetch''])"

definition fetch_many :: "jsval list \<Rightarrow> string list resolver" where
  "fetch_many store r w =
     (Inr (JArr (filter (\<lambda>x. case own_prop (args r) ''_ids'' of
                               JArr ids \<Rightarrow> list_ex (\<lambda>i. js_get x ''_id'' = Inr i) ids
                             | other \<Rightarrow> False) store)),
      r, w @ [''fetch''])"

definition admin_policy :: EntityAuthConfig where
  "admin_policy = \<lparr>readAll = [], writeAll = [''admin''], writeSelf = [], readSelf = [],
     userIdField = Some ''ownerId''\<rparr>"

definition self_policy :: EntityAuthConfig where
  "self_policy = \<lparr>readAll = [], writeAll = [], writeSelf = [''user''], readSelf = [''user''],
     userIdField = Some ''ownerId''\<rparr>"

definition empty_owner_policy :: EntityAuthConfig where
  "empty_owner_policy =
     \<lparr>readAll = [], writeAll = [], writeSelf = [], readSelf = [''user''], userIdField = Some []\<rparr>"

definition create_request :: rp where
  "create_request = request [(''record'', JObj [(''name'', JStr ''x'')])] (claim_of 7 [''admin''])"

definition two_records :: "jsval list" where
  "two_records = [JObj [(''_id'', JNum 1), (''ownerId'', JNum 7)],
                  JObj [(''_id'', JNum 2), (''ownerId'', JNum 9)]]"

definition each_request :: rp where
  "each_request = request [(''records'', JArr [JObj [(''_id'', JNum 5), (''val'', JStr ''a'')],
                                               JObj [(''_id'', JNum 6), (''val'', JStr ''b'')]])]
                    (claim_of 7 [''user''])"

definition mixed_each_request :: rp where
  "mixed_each_request =
     request [(''records'', JArr [JObj [(''_id'', JNum 1), (''val'', JStr ''a'')],
                                  JObj [(''_id'', JNum 2), (''val'', JStr ''b'')]])]
       (claim_of 7 [''user''])"

definition filter_request :: "jsval \<Rightarrow> rp" where
  "filter_request owner =
     request [(''filter'', JObj [(''ownerId'', owner), (''name'', JStr ''x'')])]
       (claim_of 7 [''user''])"

text \<open>
  The filter a self-scoped request is delegated with, for the owner key, the claim's id
  and the filter of the caller, and the request parameters that carry it.
\<close>

definition scoped_filter :: "string \<Rightarrow> jsval \<Rightarrow> jsval \<Rightarrow> (string \<times> jsval) list" where
  "scoped_filter k uid f = (case f of JObj kv \<Rightarrow> set_prop kv k uid | other \<Rightarrow> [(k, uid)])"

definition scoped_request :: "string \<Rightarrow> jsval \<Rightarrow> rp \<Rightarrow> rp" where
  "scoped_request k uid r =
     r\<lparr>args := set_prop (args r) ''filter''
                  (JObj (scoped_filter k uid (own_prop (args r) ''filter'')))\<rparr>"

text \<open>
  The two conditions of policy validation: no usable owner field (left out, or the empty
  string), and a self set that is not empty.
\<close>

definition unset_owner :: "EntityAuthConfig \<Rightarrow> bool" where
  "unset_owner c = (userIdField c = None \<or> userIdField c = Some [])"

definition self_scoped :: "EntityAuthConfig \<Rightarrow> bool" where
  "self_scoped c = (readSelf c \<noteq> [] \<or> writeSelf c \<noteq> [])"

text \<open>
  A model over a store, the list of the stored records: a document is the record it is
  built from (an empty document for anything that is not an object), an update writes the
  fields of the document into the stored record with its id, a fetch returns the first
  stored record with the id, or \<^verbatim>\<open>null\<close>.
\<close>

definition store_model :: "jsval list model" where
  "store_model =
     \<lparr>model_new = (\<lambda>record w. (Inr (case record of JObj kv \<Rightarrow> JObj kv | other \<Rightarrow> JObj []), w)),
      model_findByIdAndUpdate = (\<lambda>i doc w.
         (Inr JNull,
          map (\<lambda>x. if js_get x ''_id'' = Inr i
                    then (case (x, doc) of
                            (JObj old, JObj new) \<Rightarrow> JObj (foldl (\<lambda>kv (k, v). set_prop kv k v) old new)
                          | other \<Rightarrow> x)
                    else x) w)),
      model_findById = (\<lambda>i w.
         (case filter (\<lambda>x. js_get x ''_id'' = Inr i) w of [] \<Rightarrow> Inr JNull | x # xs \<Rightarrow> Inr x, w))\<rparr>"

definition stored :: "jsval list" where
  "stored = [JObj [(''_id'', JNum 1), (''val'', JStr ''old'')],
             JObj [(''_id'', JNum 2), (''val'', JStr ''b'')]]"

definition id_only_request :: rp where
  "id_only_request = request [(''records'', JArr [JObj [(''_id'', JNum 1)]])] JNull"

definition update_request :: "int \<Rightarrow> rp" where
  "update_request i =
     request [(''records'', JArr [JObj [(''_id'', JNum i), (''val'', JStr ''a'')],
                                  JObj [(''_id'', JNum 2), (''val'', JStr ''b'')]])] JNull"

text \<open>
  The error of a payload that does not pass the checks of the resolver: the second
  message for a list with a first entry, the first message for anything else.
\<close>

definition payload_error :: "jsval \<Rightarrow> error" where
  "payload_error v = (case v of JArr (x # xs) \<Rightarrow> RecordsEmptyRecord | other \<Rightarrow> RecordsNotArray)"

text \<open>
  What the result of the resolver is made of. A document is built from a record when the
  constructor (and then the hook, if there is one) returns it for that record, in some
  world; a value is refetched for a document when the fetch by the document's
  \<^verbatim>\<open>_id\<close> returns it, in some world.
\<close>

definition built :: "'w model \<Rightarrow> 'w hook option \<Rightarrow> jsval \<Rightarrow> jsval \<Rightarrow> bool" where
  "built m h record doc =
     (case h of
        None \<Rightarrow> (\<exists>w w'. model_new m record w = (Inr doc, w'))
      | Some hk \<Rightarrow> (\<exists>d w w1 r r' w'. model_new m record w = (Inr d, w1)
                                    \<and> hk d r w1 = (Inr doc, r', w')))"

definition refetched :: "'w model \<Rightarrow> jsval \<Rightarrow> jsval \<Rightarrow> bool" where
  "refetched m doc v =
     (\<exists>i w w'. js_get doc ''_id'' = Inr i \<and> model_findById m i w = (Inr v, w'))"

text \<open>
  The states of a task that belong to a document, the settled tasks, and the tasks whose
  document can be asked for its \<^verbatim>\<open>_id\<close>.
\<close>

definition task_for :: "'w model \<Rightarrow> jsval \<Rightarrow> task \<Rightarrow> bool" where
  "task_for m doc t =
     (case t of Updating i d \<Rightarrow> d = doc | Refetching d \<Rightarrow> d = doc | Settled v \<Rightarrow> refetched m doc v)"

definition is_settled :: "task \<Rightarrow> bool" where
  "is_settled t = (case t of Settled v \<Rightarrow> True | other \<Rightarrow> False)"

definition live :: "task \<Rightarrow> bool" where
  "live t = (case t of Updating i d \<Rightarrow> d \<noteq> JUndefined \<and> d \<noteq> JNull
                     | Refetching d \<Rightarrow> d \<noteq> JUndefined \<and> d \<noteq> JNull
                     | Settled v \<Rightarrow> True)"

text \<open>
  A model and hook that never reject and never give \<^verbatim>\<open>null\<close> or \<^verbatim>\<open>undefined\<close>
  for a document.
\<close>

definition dependable :: "'w model \<Rightarrow> 'w hook option \<Rightarrow> bool" where
  "dependable m h =
     ((\<forall>record w. \<exists>doc w'. model_new m record w = (Inr doc, w') \<and> doc \<noteq> JUndefined \<and> doc \<noteq> JNull)
      \<and> (\<forall>i doc w. \<exists>u w'. model_findByIdAndUpdate m i doc w = (Inr u, w'))
      \<and> (\<forall>i w. \<exists>v w'. model_findById m i w = (Inr v, w'))
      \<and> (case h of
            None \<Rightarrow> True
          | Some hk \<Rightarrow> \<forall>doc r w. \<exists>doc' r' w'. hk doc r w = (Inr doc', r', w')
                                    \<and> doc' \<noteq> JUndefined \<and> doc' \<noteq> JNull))"


section \<open>Properties\<close>

subsection \<open>Values, validator, evaluator\<close>

lemma own_prop_set_prop: "own_prop (set_prop kv k v) k' = (if k' = k then v else own_prop kv k')"
  by (induction kv) (auto simp: own_prop_def)

lemma set_prop_set_prop: "set_prop (set_prop kv k v) k u = set_prop kv k u"
  by (induction kv) auto

lemma own_prop_Cons: "own_prop ((k, v) # kv) k' = (if k' = k then v else own_prop kv k')"
  by (simp add: own_prop_def)

lemma context_user_update [simp]:
  "context_user (r\<lparr>args := a\<rparr>) = context_user r"
  "context_user (r\<lparr>projection := p\<rparr>) = context_user r"
  "context_user_id (r\<lparr>args := a\<rparr>) = context_user_id r"
  "context_user_id (r\<lparr>projection := p\<rparr>) = context_user_id r"
  by (simp_all add: context_user_def context_user_id_def)

lemma filter_owned_all:
  "\<forall>item \<in> set items. \<exists>owner. js_get item k = Inr owner \<and> strict_eq owner u
   \<Longrightarrow> filter_owned k (Inr u) items = Inr items"
  by (induction items) auto

lemma js_get_not_nullish: "v \<noteq> JUndefined \<Longrightarrow> v \<noteq> JNull \<Longrightarrow> \<exists>x. js_get v k = Inr x"
  by (cases v) (auto split: option.splits)

lemma isValidJwtPayload_iff:
  "isValidJwtPayload jwt \<longleftrightarrow>
     truthy jwt \<and> (\<exists>i p. js_get jwt ''id'' = Inr i \<and> truthy i
                        \<and> js_get jwt ''permissions'' = Inr p \<and> isArrayOfStrings p)"
  by (auto simp: isValidJwtPayload_def split: sum.splits)

lemma uniq_eq_Nil [simp]: "uniq xs = [] \<longleftrightarrow> xs = []"
  by (cases xs) auto

lemma intersection_nonempty_iff:
  "length (intersection (JArr perms) roles) \<noteq> 0 \<longleftrightarrow> (\<exists>role \<in> set roles. JStr role \<in> set perms)"
  by (auto simp: intersection_def filter_empty_conv)

lemma validateAuthObject_eq:
  "validateAuthObject c = (if unset_owner c \<and> self_scoped c then Inl WrongAuthConfig else Inr ())"
  by (auto simp: validateAuthObject_def unset_owner_def self_scoped_def split: option.splits)

lemmas wrap_defs =
  wrapCreateAuth_def authMutationByIdsEach_def wrapMutationAuth_def
  wrapMutationWithFilterAuth_def authQueryWithFilterResolver_def
  authQueryByIdsResolver_def authQueryOneResolver_def

lemmas resolve_defs =
  wrapCreateAuth_resolve_def authMutationByIdsEach_resolve_def wrapMutationAuth_resolve_def
  wrapMutationWithFilterAuth_resolve_def authQueryWithFilterResolver_resolve_def
  authQueryByIdsResolver_resolve_def authQueryOneResolver_resolve_def

lemmas run_defs =
  request_def claim_of_def context_user_def context_user_id_def own_prop_def
  isValidJwtPayload_def isArrayOfStrings_def checkIfCanReadAll_def checkIfCanWriteAll_def
  checkIfCanReadSelf_def checkIfCanWriteSelf_def intersection_def permissions_of_def
  owner_key_def strict_eq_def fetch_params_def

lemma stamp_each_objects:
  "stamp_each k v (map JObj recs) = (map (\<lambda>kv. JObj (set_prop kv k v)) recs, None)"
  by (induction recs) auto

lemma count_valid_bound:
  assumes "\<forall>item \<in> set items. item \<noteq> JUndefined \<and> item \<noteq> JNull"
  shows "\<exists>m. count_valid k (Inr u) items n = Inr m \<and> m \<le> n + length items
           \<and> ((\<exists>item \<in> set items. \<exists>owner. js_get item k = Inr owner \<and> \<not> strict_eq owner u)
                \<longrightarrow> m < n + length items)"
  using assms
proof (induction items arbitrary: n)
  case Nil
  then show ?case by simp
next
  case (Cons item items)
  from Cons.prems obtain owner where owner: "js_get item k = Inr owner"
    using js_get_not_nullish [of item k] by auto
  from Cons.prems have rest: "\<forall>item \<in> set items. item \<noteq> JUndefined \<and> item \<noteq> JNull"
    by simp
  show ?case
  proof (cases "strict_eq owner u")
    case True
    from Cons.IH [OF rest, of "n + 1"] obtain m where
      m: "count_valid k (Inr u) items (n + 1) = Inr m" "m \<le> n + 1 + length items"
        "(\<exists>item \<in> set items. \<exists>owner. js_get item k = Inr owner \<and> \<not> strict_eq owner u)
           \<longrightarrow> m < n + 1 + length items"
      by blast
    show ?thesis
      using m owner True by auto
  next
    case False
    from Cons.IH [OF rest, of n] obtain m where
      m: "count_valid k (Inr u) items n = Inr m" "m \<le> n + length items"
      by blast
    show ?thesis
      using m owner False by auto
  qed
qed

subsection \<open>Wrapper construction\<close>

text \<open>
  C8. Wrapping a resolver under an absent policy gives back the resolver itself, for each
  of the seven wrappers: the wrapped operation is the original one, so on every request
  it has the original's result and passes the request parameters on as they are.
\<close>

theorem absent_policy_is_identity:
  "wrapCreateAuth resolver None = Inr resolver
   \<and> authMutationByIdsEach resolver None fetch = Inr resolver
   \<and> wrapMutationAuth resolver None fetch = Inr resolver
   \<and> wrapMutationWithFilterAuth resolver None fetch = Inr resolver
   \<and> authQueryWithFilterResolver resolver None = Inr resolver
   \<and> authQueryByIdsResolver resolver None = Inr resolver
   \<and> authQueryOneResolver resolver None = Inr resolver"
  by (simp add: wrap_defs isAuthConfigImpactful_def)

theorem absent_policy_is_identity_witness:
  "(case wrapCreateAuth echo None of
      Inl e \<Rightarrow> False
    | Inr op \<Rightarrow> op (request [(''record'', JObj [(''name'', JStr ''x'')])] JNull) ()
               = (Inr (JObj [(''record'', JObj [(''name'', JStr ''x'')])]),
                  request [(''record'', JObj [(''name'', JStr ''x'')])] JNull, ()))"
  using absent_policy_is_identity [of echo]
  by (simp add: echo_def request_def)

text \<open>
  C6, as the code has it. Constructing any of the seven wrappers over a policy fails with
  the configuration error exactly when the owner field is left out or is the empty string
  and one of the self sets is not empty; for every other policy the construction gives
  the wrapped resolver. The failure is the result of the construction, so there is no
  resolver that could serve a request.
\<close>

theorem wrapper_construction:
  "(if unset_owner c \<and> self_scoped c
    then wrapCreateAuth resolver (Some c) = Inl WrongAuthConfig
       \<and> authMutationByIdsEach resolver (Some c) fetch = Inl WrongAuthConfig
       \<and> wrapMutationAuth resolver (Some c) fetch = Inl WrongAuthConfig
       \<and> wrapMutationWithFilterAuth resolver (Some c) fetch = Inl WrongAuthConfig
       \<and> authQueryWithFilterResolver resolver (Some c) = Inl WrongAuthConfig
       \<and> authQueryByIdsResolver resolver (Some c) = Inl WrongAuthConfig
       \<and> authQueryOneResolver resolver (Some c) = Inl WrongAuthConfig
    else wrapCreateAuth resolver (Some c) = Inr (wrapCreateAuth_resolve resolver c)
       \<and> authMutationByIdsEach resolver (Some c) fetch
           = Inr (authMutationByIdsEach_resolve resolver c fetch)
       \<and> wrapMutationAuth resolver (Some c) fetch = Inr (wrapMutationAuth_resolve resolver c fetch)
       \<and> wrapMutationWithFilterAuth resolver (Some c) fetch
           = Inr (wrapMutationWithFilterAuth_resolve resolver c fetch)
       \<and> authQueryWithFilterResolver resolver (Some c)
           = Inr (authQueryWithFilterResolver_resolve resolver c)
       \<and> authQueryByIdsResolver resolver (Some c) = Inr (authQueryByIdsResolver_resolve resolver c)
       \<and> authQueryOneResolver resolver (Some c) = Inr (authQueryOneResolver_resolve resolver c))
   \<and> kind_of WrongAuthConfig = ConfigurationError"
  by (simp add: wrap_defs isAuthConfigImpactful_def validateAuthObject_eq)

text \<open>
  The policy \<open>empty_owner_policy\<close> has its owner field set, to the empty string, and a
  reader role; constructing a wrapper over it fails all the same.
\<close>

theorem empty_owner_field_counterexample:
  "userIdField empty_owner_policy \<noteq> None
   \<and> wrapCreateAuth echo (Some empty_owner_policy) = Inl WrongAuthConfig"
  by (simp add: empty_owner_policy_def wrapCreateAuth_def isAuthConfigImpactful_def
      validateAuthObject_def)

theorem wrapper_construction_witness:
  "wrapCreateAuth echo (Some empty_owner_policy) = Inl WrongAuthConfig
   \<and> wrapCreateAuth echo (Some (empty_owner_policy\<lparr>userIdField := Some ''ownerId''\<rparr>))
      = Inr (wrapCreateAuth_resolve echo (empty_owner_policy\<lparr>userIdField := Some ''ownerId''\<rparr>))"
  using wrapper_construction [of empty_owner_policy echo]
    wrapper_construction [of "empty_owner_policy\<lparr>userIdField := Some ''ownerId''\<rparr>" echo]
  by (simp add: empty_owner_policy_def unset_owner_def self_scoped_def)

subsection \<open>Authentication and the write-all path\<close>

text \<open>
  C3. A request whose identity claim is missing (\<^verbatim>\<open>undefined\<close> or \<^verbatim>\<open>null\<close>), has an id
  that counts as false, or has permissions that are not an array of strings, does not pass
  the validator, and each of the seven wrapped operations rejects it with the error that
  asks for a valid token. Whatever the wrapped resolver and the auxiliary fetch are, the
  request parameters and the world come back as they went in: neither was called.
\<close>

theorem invalid_claim_rejected:
  assumes "context_user r = Inr user"
    and "user = JUndefined \<or> user = JNull
         \<or> (\<exists>i. js_get user ''id'' = Inr i \<and> \<not> truthy i)
         \<or> (\<exists>p. js_get user ''permissions'' = Inr p \<and> \<not> isArrayOfStrings p)"
  shows "\<not> isValidJwtPayload user
    \<and> wrapCreateAuth_resolve next c r w = (Inl JwtRequired, r, w)
    \<and> authMutationByIdsEach_resolve next c fetch r w = (Inl JwtRequired, r, w)
    \<and> wrapMutationAuth_resolve next c fetch r w = (Inl JwtRequired, r, w)
    \<and> wrapMutationWithFilterAuth_resolve next c fetch r w = (Inl JwtRequired, r, w)
    \<and> authQueryWithFilterResolver_resolve next c r w = (Inl JwtRequired, r, w)
    \<and> authQueryByIdsResolver_resolve next c r w = (Inl JwtRequired, r, w)
    \<and> authQueryOneResolver_resolve next c r w = (Inl JwtRequired, r, w)
    \<and> kind_of JwtRequired = AuthenticationRequired"
proof -
  have inv: "\<not> isValidJwtPayload user"
    using assms(2) by (auto simp: isValidJwtPayload_iff)
  show ?thesis
    using inv assms(1) by (simp add: resolve_defs)
qed

theorem invalid_claim_rejected_witness:
  "wrapMutationAuth_resolve (logged ''update'' JNull) admin_policy (logged ''findById'' JNull)
      (request [(''_id'', JNum 1)] (claim_of 0 [''admin''])) []
   = (Inl JwtRequired, request [(''_id'', JNum 1)] (claim_of 0 [''admin'']), [])"
  using invalid_claim_rejected [of "request [(''_id'', JNum 1)] (claim_of 0 [''admin''])"
      "claim_of 0 [''admin'']" "logged ''update'' JNull" admin_policy "[]"
      "logged ''findById'' JNull"]
  by (simp add: request_def claim_of_def context_user_def own_prop_def)

text \<open>
  C1, as the code has it. For a valid claim with a role in the policy's write-all set,
  whatever the write-self set is: the mutation wrapper by id, the mutation wrapper with a
  filter and the wrapper of the batch by ids call the wrapped resolver on the request
  parameters as they came and return what it returns, with no fetch before. The create
  wrapper calls the wrapped resolver too, after it has written the claim's id into the
  owner field the policy names, in every record of the payload.
\<close>

theorem write_all_delegates:
  assumes "context_user r = Inr user" and "isValidJwtPayload user"
    and "checkIfCanWriteAll user c"
  shows "wrapMutationAuth_resolve next c fetch r w = next r w
    \<and> wrapMutationWithFilterAuth_resolve next c fetch r w = next r w
    \<and> authMutationByIdsEach_resolve next c fetch r w = next r w
    \<and> (\<forall>k uid recs. userIdField c = Some k \<longrightarrow> context_user_id r = Inr uid \<longrightarrow>
          own_prop (args r) ''records'' = JArr (map JObj recs) \<longrightarrow>
          wrapCreateAuth_resolve next c r w
            = next (r\<lparr>args := set_prop (args r) ''records''
                   (JArr (map (\<lambda>kv. JObj (set_prop kv k uid)) recs))\<rparr>) w)
    \<and> (\<forall>k uid kv. userIdField c = Some k \<longrightarrow> context_user_id r = Inr uid \<longrightarrow>
          \<not> truthy (own_prop (args r) ''records'') \<longrightarrow>
          own_prop (args r) ''record'' = JObj kv \<longrightarrow>
          wrapCreateAuth_resolve next c r w
            = next (r\<lparr>args := set_prop (args r) ''record'' (JObj (set_prop kv k uid))\<rparr>) w)"
  using assms by (simp add: resolve_defs stamp_each_objects owner_key_def)

text \<open>
  An administrator (role \<^verbatim>\<open>admin\<close>, in the write-all set) creates \<^verbatim>\<open>{ name: "x" }\<close>:
  the wrapped resolver is called with \<^verbatim>\<open>{ name: "x", ownerId: 7 }\<close>, not with the record
  as it came.
\<close>

theorem create_stamps_under_write_all_counterexample:
  "isValidJwtPayload (claim_of 7 [''admin''])
   \<and> checkIfCanWriteAll (claim_of 7 [''admin'']) admin_policy
   \<and> echo create_request ()
       = (Inr (JObj [(''record'', JObj [(''name'', JStr ''x'')])]), create_request, ())
   \<and> fst (wrapCreateAuth_resolve echo admin_policy create_request ())
       = Inr (JObj [(''record'', JObj [(''name'', JStr ''x''), (''ownerId'', JNum 7)])])"
  by (simp add: wrapCreateAuth_resolve_def echo_def create_request_def admin_policy_def run_defs)

theorem write_all_delegates_witness:
  "wrapMutationAuth_resolve (logged ''update'' (JStr ''done'')) admin_policy
      (logged ''findById'' JNull) (request [(''_id'', JNum 1)] (claim_of 7 [''admin''])) []
    = (Inr (JStr ''done''), request [(''_id'', JNum 1)] (claim_of 7 [''admin'']), [''update''])
   \<and> fst (wrapCreateAuth_resolve echo admin_policy create_request ())
    = Inr (JObj [(''record'', JObj [(''name'', JStr ''x''), (''ownerId'', JNum 7)])])"
  using write_all_delegates [of "request [(''_id'', JNum 1)] (claim_of 7 [''admin''])"
      "claim_of 7 [''admin'']" admin_policy "logged ''update'' (JStr ''done'')"
      "logged ''findById'' JNull" "[]"]
    write_all_delegates [of create_request "claim_of 7 [''admin'']" admin_policy echo echo "()"]
  by (simp add: logged_def echo_def create_request_def admin_policy_def run_defs)

subsection \<open>Ownership checks of the mutations by id\<close>

lemma filter_owned_bound:
  assumes "\<forall>item \<in> set items. item \<noteq> JUndefined \<and> item \<noteq> JNull"
  shows "\<exists>owned. filter_owned k (Inr u) items = Inr owned \<and> length owned \<le> length items
           \<and> ((\<exists>item \<in> set items. \<exists>owner. js_get item k = Inr owner \<and> \<not> strict_eq owner u)
                \<longrightarrow> length owned < length items)"
  using assms
proof (induction items)
  case Nil
  show ?case by simp
next
  case (Cons item items)
  from Cons.prems have "item \<noteq> JUndefined" "item \<noteq> JNull"
    by simp_all
  from js_get_not_nullish [OF this, of k] obtain owner where owner: "js_get item k = Inr owner"
    by (elim exE)
  from Cons.prems have "\<forall>item \<in> set items. item \<noteq> JUndefined \<and> item \<noteq> JNull"
    by simp
  from Cons.IH [OF this] obtain owned where
    rest: "filter_owned k (Inr u) items = Inr owned" "length owned \<le> length items"
      "(\<exists>item \<in> set items. \<exists>owner. js_get item k = Inr owner \<and> \<not> strict_eq owner u)
         \<longrightarrow> length owned < length items"
    by (elim exE conjE)
  show ?case
  proof (cases "strict_eq owner u")
    case True
    have "filter_owned k (Inr u) (item # items) = Inr (item # owned)"
      using owner rest(1) True by simp
    moreover have "length (item # owned) \<le> length (item # items)"
      using rest(2) by simp
    moreover have "(\<exists>x \<in> set (item # items). \<exists>owner. js_get x k = Inr owner \<and> \<not> strict_eq owner u)
                     \<longrightarrow> length (item # owned) < length (item # items)"
      using rest(3) owner True by auto
    ultimately show ?thesis by (intro exI conjI)
  next
    case False
    have "filter_owned k (Inr u) (item # items) = Inr owned"
      using owner rest(1) False by simp
    moreover have "length owned \<le> length (item # items)"
      using rest(2) by simp
    moreover have "(\<exists>x \<in> set (item # items). \<exists>owner. js_get x k = Inr owner \<and> \<not> strict_eq owner u)
                     \<longrightarrow> length owned < length (item # items)"
      using rest(2) by simp
    ultimately show ?thesis by (intro exI conjI)
  qed
qed

lemma mutation_by_id_mismatch:
  assumes "context_user r = Inr user" and "isValidJwtPayload user"
    and "\<not> checkIfCanWriteAll user c" and "checkIfCanWriteSelf user c"
    and "context_user_id r = Inr uid"
    and "findById (fetch_params (args r) c) w = (Inr foundData, q, w1)"
    and "(js_get foundData ''length'' = Inr JUndefined
          \<and> (\<exists>owner. js_get foundData (owner_key c) = Inr owner \<and> \<not> strict_eq owner uid))
         \<or> (\<exists>items. foundData = JArr items
              \<and> (\<forall>item \<in> set items. item \<noteq> JUndefined \<and> item \<noteq> JNull)
              \<and> (\<exists>item \<in> set items. \<exists>owner.
                    js_get item (owner_key c) = Inr owner \<and> \<not> strict_eq owner uid))"
  shows "wrapMutationAuth_resolve next c findById r w = (Inl AccesDenied, r\<lparr>args := args q\<rparr>, w1)"
  using assms(7)
proof (elim disjE conjE exE)
  fix owner
  assume "js_get foundData ''length'' = Inr JUndefined"
    and "js_get foundData (owner_key c) = Inr owner" and "\<not> strict_eq owner uid"
  then show ?thesis
    using assms(1-6) by (simp add: wrapMutationAuth_resolve_def strict_eq_def [of JUndefined])
next
  fix items
  assume found: "foundData = JArr items"
    and recs: "\<forall>item \<in> set items. item \<noteq> JUndefined \<and> item \<noteq> JNull"
    and bad: "\<exists>item \<in> set items. \<exists>owner.
                js_get item (owner_key c) = Inr owner \<and> \<not> strict_eq owner uid"
  from count_valid_bound [OF recs, of "owner_key c" uid 0] bad obtain m where
    m: "count_valid (owner_key c) (Inr uid) items 0 = Inr m" "m < length items"
    by auto
  show ?thesis
    using assms(1-6) found m
    by (simp add: wrapMutationAuth_resolve_def strict_eq_def [of "JNum x" for x])
qed

lemma ids_each_mismatch:
  assumes "context_user r = Inr user" and "isValidJwtPayload user"
    and "\<not> checkIfCanWriteAll user c" and "checkIfCanWriteSelf user c"
    and "context_user_id r = Inr uid"
    and "own_prop (args r) ''records'' = JArr records" and "map_ids records = Inr ids"
    and "findByIds (fetch_params [(''_ids'', JArr ids)] c) w = (Inr (JArr foundRecords), q, w1)"
    and recs: "\<forall>item \<in> set foundRecords. item \<noteq> JUndefined \<and> item \<noteq> JNull"
    and bad: "\<exists>item \<in> set foundRecords. \<exists>owner.
                js_get item (owner_key c) = Inr owner \<and> \<not> strict_eq owner uid"
  shows "authMutationByIdsEach_resolve next c findByIds r w = (Inl AccesDenied, r, w1)"
proof -
  from filter_owned_bound [OF recs, of "owner_key c" uid] bad obtain owned where
    "filter_owned (owner_key c) (Inr uid) foundRecords = Inr owned"
    "length owned < length foundRecords"
    by auto
  with assms(1-8) show ?thesis
    by (simp add: authMutationByIdsEach_resolve_def)
qed

text \<open>
  C2. The claim is valid, has a role in the write-self set and none in the write-all
  set. In the mutation wrapper by id: if the fetch gives a single record (a value without
  a \<^verbatim>\<open>length\<close>) whose owner field is not the claim's id, or a list of records of
  which at least one has an owner field that is not the claim's id, the whole call is
  rejected with the access-denied error. In the wrapper of the batch by ids: if the
  fetch by the ids of the payload gives a list of records of which at least one has an
  owner field that is not the claim's id, the whole batch is rejected with the same
  error, also when other records of the batch are the caller's own. In both wrappers the
  result is the same for every wrapped resolver and the world is the one the fetch left:
  the update or remove was not called.
\<close>

theorem owner_mismatch_denied:
  assumes "context_user r = Inr user" and "isValidJwtPayload user"
    and "\<not> checkIfCanWriteAll user c" and "checkIfCanWriteSelf user c"
    and "context_user_id r = Inr uid"
  shows "(findById (fetch_params (args r) c) w = (Inr foundData, q, w1) \<longrightarrow>
            (js_get foundData ''length'' = Inr JUndefined
              \<and> (\<exists>owner. js_get foundData (owner_key c) = Inr owner \<and> \<not> strict_eq owner uid))
            \<or> (\<exists>items. foundData = JArr items
                 \<and> (\<forall>item \<in> set items. item \<noteq> JUndefined \<and> item \<noteq> JNull)
                 \<and> (\<exists>item \<in> set items. \<exists>owner.
                       js_get item (owner_key c) = Inr owner \<and> \<not> strict_eq owner uid)) \<longrightarrow>
            wrapMutationAuth_resolve next c findById r w
              = (Inl AccesDenied, r\<lparr>args := args q\<rparr>, w1))
    \<and> (own_prop (args r) ''records'' = JArr records \<longrightarrow> map_ids records = Inr ids \<longrightarrow>
          findByIds (fetch_params [(''_ids'', JArr ids)] c) w = (Inr (JArr foundRecords), q', w2) \<longrightarrow>
          (\<forall>item \<in> set foundRecords. item \<noteq> JUndefined \<and> item \<noteq> JNull) \<longrightarrow>
          (\<exists>item \<in> set foundRecords. \<exists>owner.
              js_get item (owner_key c) = Inr owner \<and> \<not> strict_eq owner uid) \<longrightarrow>
          authMutationByIdsEach_resolve next c findByIds r w = (Inl AccesDenied, r, w2))
    \<and> kind_of AccesDenied = AccessDenied"
proof (intro conjI impI)
  assume "findById (fetch_params (args r) c) w = (Inr foundData, q, w1)"
    and "(js_get foundData ''length'' = Inr JUndefined
            \<and> (\<exists>owner. js_get foundData (owner_key c) = Inr owner \<and> \<not> strict_eq owner uid))
         \<or> (\<exists>items. foundData = JArr items
              \<and> (\<forall>item \<in> set items. item \<noteq> JUndefined \<and> item \<noteq> JNull)
              \<and> (\<exists>item \<in> set items. \<exists>owner.
                    js_get item (owner_key c) = Inr owner \<and> \<not> strict_eq owner uid))"
  with assms show "wrapMutationAuth_resolve next c findById r w
                     = (Inl AccesDenied, r\<lparr>args := args q\<rparr>, w1)"
    by (rule mutation_by_id_mismatch)
next
  assume "own_prop (args r) ''records'' = JArr records" and "map_ids records = Inr ids"
    and "findByIds (fetch_params [(''_ids'', JArr ids)] c) w = (Inr (JArr foundRecords), q', w2)"
    and "\<forall>item \<in> set foundRecords. item \<noteq> JUndefined \<and> item \<noteq> JNull"
    and "\<exists>item \<in> set foundRecords. \<exists>owner.
           js_get item (owner_key c) = Inr owner \<and> \<not> strict_eq owner uid"
  with assms show "authMutationByIdsEach_resolve next c findByIds r w = (Inl AccesDenied, r, w2)"
    by (rule ids_each_mismatch)
next
  show "kind_of AccesDenied = AccessDenied" by simp
qed


text \<open>
  Subject 7 updates record 2, owned by 9; removes the records 1 and 2, of which only the
  first is its own; and updates each of the records 1 and 2 in one batch. The three
  calls are denied after the fetch, with no update or remove in the log.
\<close>

theorem owner_mismatch_denied_witness:
  "wrapMutationAuth_resolve (logged ''update'' (JStr ''done'')) self_policy
      (fetch_one two_records) (request [(''_id'', JNum 2)] (claim_of 7 [''user''])) []
   = (Inl AccesDenied, request [(''_id'', JNum 2)] (claim_of 7 [''user'']), [''fetch''])
   \<and> wrapMutationAuth_resolve (logged ''remove'' (JStr ''done'')) self_policy
      (fetch_many two_records)
      (request [(''_ids'', JArr [JNum 1, JNum 2])] (claim_of 7 [''user''])) []
   = (Inl AccesDenied, request [(''_ids'', JArr [JNum 1, JNum 2])] (claim_of 7 [''user'']),
      [''fetch''])
   \<and> authMutationByIdsEach_resolve (logged ''updateEach'' (JStr ''done'')) self_policy
      (fetch_many two_records) mixed_each_request []
   = (Inl AccesDenied, mixed_each_request, [''fetch''])"
  using owner_mismatch_denied [of "request [(''_id'', JNum 2)] (claim_of 7 [''user''])"
      "claim_of 7 [''user'']" self_policy "JNum 7" "fetch_one two_records" "[]"
      "JObj [(''_id'', JNum 2), (''ownerId'', JNum 9)]"
      "fetch_params [(''_id'', JNum 2)] self_policy" "[''fetch'']"
      "logged ''update'' (JStr ''done'')" "[]" "[]" "fetch_many two_records" "[]"
      "fetch_params [] self_policy" "[]"]
    owner_mismatch_denied [of "request [(''_ids'', JArr [JNum 1, JNum 2])] (claim_of 7 [''user''])"
      "claim_of 7 [''user'']" self_policy "JNum 7" "fetch_many two_records" "[]"
      "JArr two_records"
      "fetch_params [(''_ids'', JArr [JNum 1, JNum 2])] self_policy" "[''fetch'']"
      "logged ''remove'' (JStr ''done'')" "[]" "[]" "fetch_many two_records" "[]"
      "fetch_params [] self_policy" "[]"]
    owner_mismatch_denied [of mixed_each_request
      "claim_of 7 [''user'']" self_policy "JNum 7" "fetch_many two_records" "[]"
      "JNull" "fetch_params [] self_policy" "[]"
      "logged ''updateEach'' (JStr ''done'')"
      "[JObj [(''_id'', JNum 1), (''val'', JStr ''a'')], JObj [(''_id'', JNum 2), (''val'', JStr ''b'')]]"
      "[JNum 1, JNum 2]" "fetch_many two_records" two_records
      "fetch_params [(''_ids'', JArr [JNum 1, JNum 2])] self_policy" "[''fetch'']"]
  by (simp add: mixed_each_request_def fetch_one_def fetch_many_def two_records_def self_policy_def
      run_defs)

text \<open>
  C10. In the wrapper of the batch by ids, for a valid claim with a role in the
  write-self set and none in the write-all set, the decision looks at the fetched records
  only: if every record the fetch returns has the claim's id in its owner field, the
  wrapped mutation is called, whatever ids were asked for. That is so in particular when
  the fetch returns no record at all, because none of the ids exists.
\<close>

theorem absent_records_pass_ids_each:
  assumes "context_user r = Inr user" and "isValidJwtPayload user"
    and "\<not> checkIfCanWriteAll user c" and "checkIfCanWriteSelf user c"
    and "context_user_id r = Inr uid"
    and "own_prop (args r) ''records'' = JArr records" and "map_ids records = Inr ids"
    and "findByIds (fetch_params [(''_ids'', JArr ids)] c) w = (Inr (JArr foundRecords), q, w1)"
    and "\<forall>item \<in> set foundRecords.
           \<exists>owner. js_get item (owner_key c) = Inr owner \<and> strict_eq owner uid"
  shows "authMutationByIdsEach_resolve next c findByIds r w = next r w1"
  using assms by (simp add: authMutationByIdsEach_resolve_def filter_owned_all)

text \<open>
  The store holds the records 1 and 2; subject 7 updates the records 5 and 6. The fetch
  finds nothing and the update is called.
\<close>

theorem absent_records_pass_ids_each_witness:
  "fetch_many two_records (fetch_params [(''_ids'', JArr [JNum 5, JNum 6])] self_policy) []
     = (Inr (JArr []), fetch_params [(''_ids'', JArr [JNum 5, JNum 6])] self_policy, [''fetch''])
   \<and> authMutationByIdsEach_resolve (logged ''updateEach'' (JStr ''done'')) self_policy
        (fetch_many two_records) each_request []
     = (Inr (JStr ''done''), each_request, [''fetch'', ''updateEach''])"
  using absent_records_pass_ids_each [of each_request "claim_of 7 [''user'']" self_policy "JNum 7"
      "[JObj [(''_id'', JNum 5), (''val'', JStr ''a'')], JObj [(''_id'', JNum 6), (''val'', JStr ''b'')]]"
      "[JNum 5, JNum 6]" "fetch_many two_records" "[]" "[]"
      "fetch_params [(''_ids'', JArr [JNum 5, JNum 6])] self_policy" "[''fetch'']"
      "logged ''updateEach'' (JStr ''done'')"]
  by (simp add: each_request_def fetch_many_def two_records_def self_policy_def logged_def run_defs)

subsection \<open>Self-scoped reads and filters\<close>

text \<open>
  C5. Under the policy with \<^verbatim>\<open>user\<close> as the only role of the two self sets and
  \<^verbatim>\<open>ownerId\<close> as owner field, and the claim of subject 7 with role \<^verbatim>\<open>user\<close>, the
  wrapper of the query by id is constructed, and when the wrapped resolver returns a
  record (leaving the request's context alone) the wrapper returns \<^verbatim>\<open>null\<close> if the
  record's \<^verbatim>\<open>ownerId\<close> is 9 and the record itself if it is 7.
\<close>

theorem query_one_scenario:
  assumes "rp_context r = JObj [(''user'', claim_of 7 [''user''])]"
    and "next (project_owner self_policy r) w = (Inr (JObj record), r2, w2)"
    and "rp_context r2 = rp_context r"
  shows "authQueryOneResolver next (Some self_policy)
           = Inr (authQueryOneResolver_resolve next self_policy)
    \<and> (own_prop record ''ownerId'' = JNum 9 \<longrightarrow>
          authQueryOneResolver_resolve next self_policy r w = (Inr JNull, r2, w2))
    \<and> (own_prop record ''ownerId'' = JNum 7 \<longrightarrow>
          authQueryOneResolver_resolve next self_policy r w = (Inr (JObj record), r2, w2))"
  using assms
  by (simp add: authQueryOneResolver_def authQueryOneResolver_resolve_def isAuthConfigImpactful_def
      validateAuthObject_def self_policy_def run_defs)

theorem query_one_scenario_witness:
  "authQueryOneResolver_resolve
      (logged ''findById'' (JObj [(''id'', JNum 1), (''ownerId'', JNum 9)])) self_policy
      (request [(''_id'', JNum 1)] (claim_of 7 [''user''])) []
    = (Inr JNull, project_owner self_policy (request [(''_id'', JNum 1)] (claim_of 7 [''user''])),
       [''findById''])
   \<and> authQueryOneResolver_resolve
      (logged ''findById'' (JObj [(''id'', JNum 2), (''ownerId'', JNum 7)])) self_policy
      (request [(''_id'', JNum 2)] (claim_of 7 [''user''])) []
    = (Inr (JObj [(''id'', JNum 2), (''ownerId'', JNum 7)]),
       project_owner self_policy (request [(''_id'', JNum 2)] (claim_of 7 [''user''])),
       [''findById''])"
  using query_one_scenario [of "request [(''_id'', JNum 1)] (claim_of 7 [''user''])"
      "logged ''findById'' (JObj [(''id'', JNum 1), (''ownerId'', JNum 9)])" "[]"
      "[(''id'', JNum 1), (''ownerId'', JNum 9)]"
      "project_owner self_policy (request [(''_id'', JNum 1)] (claim_of 7 [''user'']))"
      "[''findById'']"]
    query_one_scenario [of "request [(''_id'', JNum 2)] (claim_of 7 [''user''])"
      "logged ''findById'' (JObj [(''id'', JNum 2), (''ownerId'', JNum 7)])" "[]"
      "[(''id'', JNum 2), (''ownerId'', JNum 7)]"
      "project_owner self_policy (request [(''_id'', JNum 2)] (claim_of 7 [''user'']))"
      "[''findById'']"]
  by (simp add: logged_def project_owner_def request_def own_prop_def)

lemma scoped_request_same:
  assumes "own_prop (args r) ''filter'' = JObj kv"
  shows "scoped_request k uid (r\<lparr>args := set_prop (args r) ''filter'' (JObj (set_prop kv k v))\<rparr>)
           = scoped_request k uid r"
  using assms
  by (simp add: scoped_request_def scoped_filter_def own_prop_set_prop set_prop_set_prop)

lemma query_with_filter_self:
  assumes "context_user r = Inr user" and "isValidJwtPayload user"
    and "context_user_id r = Inr uid"
    and "(\<exists>kv. own_prop (args r) ''filter'' = JObj kv) \<or> \<not> truthy (own_prop (args r) ''filter'')"
    and "\<not> checkIfCanReadAll user c" and "checkIfCanReadSelf user c"
  shows "authQueryWithFilterResolver_resolve next c r w = next (scoped_request (owner_key c) uid r) w"
  using assms
  by (auto simp: authQueryWithFilterResolver_resolve_def scoped_request_def scoped_filter_def
      split: jsval.splits)

lemma mutation_with_filter_self:
  assumes "context_user r = Inr user" and "isValidJwtPayload user"
    and "context_user_id r = Inr uid"
    and "(\<exists>kv. own_prop (args r) ''filter'' = JObj kv) \<or> \<not> truthy (own_prop (args r) ''filter'')"
    and "\<not> checkIfCanWriteAll user c" and "checkIfCanWriteSelf user c"
  shows "wrapMutationWithFilterAuth_resolve next c fetch r w
           = next (scoped_request (owner_key c) uid r) w"
  using assms
  by (auto simp: wrapMutationWithFilterAuth_resolve_def scoped_request_def scoped_filter_def
      split: jsval.splits)

text \<open>
  C9. The claim is valid and the caller's filter is an object or absent. With a role in
  the read-self set and none in the read-all set, the query wrapper with a filter calls
  the wrapped resolver on the scoped request; with a role in the write-self set and none
  in the write-all set, the mutation wrapper with a filter does. The filter of the
  scoped request has the claim's id under the owner key, whatever the caller had put
  there, and every other key of the caller's filter with its value. So a request that
  differs from another only in the value its filter has under the owner key gets the
  same result from the same world, being delegated with the same parameters.
\<close>

theorem self_scoped_filter:
  assumes "context_user r = Inr user" and "isValidJwtPayload user"
    and "context_user_id r = Inr uid"
    and "(\<exists>kv. own_prop (args r) ''filter'' = JObj kv) \<or> \<not> truthy (own_prop (args r) ''filter'')"
  shows "(\<not> checkIfCanReadAll user c \<and> checkIfCanReadSelf user c \<longrightarrow>
            authQueryWithFilterResolver_resolve next c r w
              = next (scoped_request (owner_key c) uid r) w
          \<and> (\<forall>kv v. own_prop (args r) ''filter'' = JObj kv \<longrightarrow>
                authQueryWithFilterResolver_resolve next c
                  (r\<lparr>args := set_prop (args r) ''filter'' (JObj (set_prop kv (owner_key c) v))\<rparr>) w
                = authQueryWithFilterResolver_resolve next c r w))
    \<and> (\<not> checkIfCanWriteAll user c \<and> checkIfCanWriteSelf user c \<longrightarrow>
            wrapMutationWithFilterAuth_resolve next c fetch r w
              = next (scoped_request (owner_key c) uid r) w
          \<and> (\<forall>kv v. own_prop (args r) ''filter'' = JObj kv \<longrightarrow>
                wrapMutationWithFilterAuth_resolve next c fetch
                  (r\<lparr>args := set_prop (args r) ''filter'' (JObj (set_prop kv (owner_key c) v))\<rparr>) w
                = wrapMutationWithFilterAuth_resolve next c fetch r w))
    \<and> own_prop (args (scoped_request (owner_key c) uid r)) ''filter''
        = JObj (scoped_filter (owner_key c) uid (own_prop (args r) ''filter''))
    \<and> own_prop (scoped_filter (owner_key c) uid (own_prop (args r) ''filter'')) (owner_key c) = uid
    \<and> (\<forall>k kv. k \<noteq> owner_key c \<and> own_prop (args r) ''filter'' = JObj kv \<longrightarrow>
          own_prop (scoped_filter (owner_key c) uid (own_prop (args r) ''filter'')) k = own_prop kv k)"
proof (intro conjI impI allI)
  assume p: "\<not> checkIfCanReadAll user c \<and> checkIfCanReadSelf user c"
  show "authQueryWithFilterResolver_resolve next c r w = next (scoped_request (owner_key c) uid r) w"
    by (rule query_with_filter_self [OF assms]) (use p in simp_all)
next
  fix kv v
  assume p: "\<not> checkIfCanReadAll user c \<and> checkIfCanReadSelf user c"
    and f: "own_prop (args r) ''filter'' = JObj kv"
  let ?r' = "r\<lparr>args := set_prop (args r) ''filter'' (JObj (set_prop kv (owner_key c) v))\<rparr>"
  have "authQueryWithFilterResolver_resolve next c ?r' w
          = next (scoped_request (owner_key c) uid ?r') w"
  proof (rule query_with_filter_self)
    show "context_user ?r' = Inr user" "context_user_id ?r' = Inr uid"
      using assms(1,3) by simp_all
    show "(\<exists>kv. own_prop (args ?r') ''filter'' = JObj kv) \<or> \<not> truthy (own_prop (args ?r') ''filter'')"
      by (simp add: own_prop_set_prop)
  qed (use p assms(2) in blast)+
  also have "\<dots> = next (scoped_request (owner_key c) uid r) w"
    by (simp only: scoped_request_same [OF f])
  also have "\<dots> = authQueryWithFilterResolver_resolve next c r w"
    by (rule query_with_filter_self [OF assms, symmetric]) (use p in simp_all)
  finally show "authQueryWithFilterResolver_resolve next c ?r' w
                  = authQueryWithFilterResolver_resolve next c r w" .
next
  assume p: "\<not> checkIfCanWriteAll user c \<and> checkIfCanWriteSelf user c"
  show "wrapMutationWithFilterAuth_resolve next c fetch r w
          = next (scoped_request (owner_key c) uid r) w"
    by (rule mutation_with_filter_self [OF assms]) (use p in simp_all)
next
  fix kv v
  assume p: "\<not> checkIfCanWriteAll user c \<and> checkIfCanWriteSelf user c"
    and f: "own_prop (args r) ''filter'' = JObj kv"
  let ?r' = "r\<lparr>args := set_prop (args r) ''filter'' (JObj (set_prop kv (owner_key c) v))\<rparr>"
  have "wrapMutationWithFilterAuth_resolve next c fetch ?r' w
          = next (scoped_request (owner_key c) uid ?r') w"
  proof (rule mutation_with_filter_self)
    show "context_user ?r' = Inr user" "context_user_id ?r' = Inr uid"
      using assms(1,3) by simp_all
    show "(\<exists>kv. own_prop (args ?r') ''filter'' = JObj kv) \<or> \<not> truthy (own_prop (args ?r') ''filter'')"
      by (simp add: own_prop_set_prop)
  qed (use p assms(2) in blast)+
  also have "\<dots> = next (scoped_request (owner_key c) uid r) w"
    by (simp only: scoped_request_same [OF f])
  also have "\<dots> = wrapMutationWithFilterAuth_resolve next c fetch r w"
    by (rule mutation_with_filter_self [OF assms, symmetric]) (use p in simp_all)
  finally show "wrapMutationWithFilterAuth_resolve next c fetch ?r' w
                  = wrapMutationWithFilterAuth_resolve next c fetch r w" .
next
  show "own_prop (args (scoped_request (owner_key c) uid r)) ''filter''
          = JObj (scoped_filter (owner_key c) uid (own_prop (args r) ''filter''))"
    by (simp add: scoped_request_def own_prop_set_prop)
next
  show "own_prop (scoped_filter (owner_key c) uid (own_prop (args r) ''filter'')) (owner_key c) = uid"
    by (cases "own_prop (args r) ''filter''")
       (simp_all add: scoped_filter_def own_prop_set_prop own_prop_Cons)
next
  fix k kv
  assume "k \<noteq> owner_key c \<and> own_prop (args r) ''filter'' = JObj kv"
  then show "own_prop (scoped_filter (owner_key c) uid (own_prop (args r) ''filter'')) k = own_prop kv k"
    by (simp add: scoped_filter_def own_prop_set_prop)
qed

text \<open>
  Subject 7 asks for the records of owner 9 named \<^verbatim>\<open>x\<close>: both wrappers delegate with
  the filter \<^verbatim>\<open>{ ownerId: 7, name: "x" }\<close>, and asking for owner 8 instead gives the
  same.
\<close>

theorem self_scoped_filter_witness:
  "authQueryWithFilterResolver_resolve echo self_policy (filter_request (JNum 9)) ()
     = (Inr (JObj [(''filter'', JObj [(''ownerId'', JNum 7), (''name'', JStr ''x'')])]),
        filter_request (JNum 7), ())
   \<and> wrapMutationWithFilterAuth_resolve echo self_policy echo (filter_request (JNum 9)) ()
     = (Inr (JObj [(''filter'', JObj [(''ownerId'', JNum 7), (''name'', JStr ''x'')])]),
        filter_request (JNum 7), ())
   \<and> authQueryWithFilterResolver_resolve echo self_policy (filter_request (JNum 8)) ()
     = authQueryWithFilterResolver_resolve echo self_policy (filter_request (JNum 9)) ()"
  using self_scoped_filter [of "filter_request (JNum 9)" "claim_of 7 [''user'']" "JNum 7"
      self_policy echo "()" echo]
  by (simp add: filter_request_def echo_def self_policy_def scoped_request_def scoped_filter_def
      run_defs) metis

subsection \<open>The batch update\<close>

lemma validate_records_reject:
  assumes "JNull \<notin> set records"
    and "\<exists>x \<in> set records. js_typeof x \<noteq> ''object'' \<or> object_keys_length x = Inr 0"
  shows "validate_records records = Inl RecordsEmptyRecord"
  using assms
proof (induction records)
  case Nil
  then show ?case by simp
next
  case (Cons x records)
  show ?case
  proof (cases "js_typeof x \<noteq> ''object'' \<or> object_keys_length x = Inr 0")
    case True
    then show ?thesis by auto
  next
    case False
    with Cons.prems have "x \<noteq> JNull"
      and rest: "JNull \<notin> set records"
        "\<exists>x \<in> set records. js_typeof x \<noteq> ''object'' \<or> object_keys_length x = Inr 0"
      by auto
    with False obtain n where "object_keys_length x = Inr n" "n \<noteq> 0"
      by (cases x) auto
    with False Cons.IH [OF rest] show ?thesis by simp
  qed
qed

lemma validate_records_accept:
  "\<forall>x \<in> set records. \<exists>kv. x = JObj kv \<and> kv \<noteq> [] \<Longrightarrow> validate_records records = Inr ()"
  by (induction records) auto

text \<open>
  C4, as the code has it. The resolver rejects with an invalid-payload error, leaving the
  request parameters and the world as they were (no document is built, no store
  operation runs), every \<^verbatim>\<open>args.records\<close> that is not an array, is the empty list, or
  is a list without \<^verbatim>\<open>null\<close> entries that has an entry which is not an object or is
  an object with no key at all. Entries that are objects with at least one key, be it
  only the id, pass the checks.
\<close>

theorem malformed_records_rejected:
  assumes "case own_prop (args r) ''records'' of
             JArr records \<Rightarrow>
               records = []
               \<or> (JNull \<notin> set records
                  \<and> (\<exists>x \<in> set records. js_typeof x \<noteq> ''object'' \<or> object_keys_length x = Inr 0))
           | other \<Rightarrow> True"
  shows "updateByIdEach_resolve m beforeRecordMutate sched r w
           = (Inl (payload_error (own_prop (args r) ''records'')), r, w)
    \<and> kind_of (payload_error (own_prop (args r) ''records'')) = InvalidPayload
    \<and> (\<forall>records. (\<forall>x \<in> set records. \<exists>kv. x = JObj kv \<and> kv \<noteq> [])
          \<longrightarrow> validate_records records = Inr ())"
proof (cases "own_prop (args r) ''records''")
  case (JArr records)
  show ?thesis
  proof (cases "records = []")
    case True
    with JArr show ?thesis
      by (simp add: updateByIdEach_resolve_def payload_error_def validate_records_accept)
  next
    case False
    with assms JArr have "validate_records records = Inl RecordsEmptyRecord"
      by (intro validate_records_reject) simp_all
    with JArr False show ?thesis
      by (cases records)
         (simp_all add: updateByIdEach_resolve_def payload_error_def validate_records_accept)
  qed
qed (simp_all add: updateByIdEach_resolve_def payload_error_def validate_records_accept)

text \<open>
  The record \<^verbatim>\<open>{ _id: 1 }\<close> is empty aside from its id; the resolver does not reject
  it, and returns the stored record it fetched.
\<close>

theorem id_only_record_accepted_counterexample:
  "updateByIdEach_resolve store_model None [] id_only_request stored
     = (Inr (JObj [(''records'', JArr [JObj [(''_id'', JNum 1), (''val'', JStr ''old'')]]),
                   (''updatedCount'', JNum 1)]),
        id_only_request, stored)"
  by (simp add: updateByIdEach_resolve_def id_only_request_def request_def own_prop_def
      store_model_def stored_def drain_def settled_values_def)

theorem malformed_records_rejected_witness:
  "updateByIdEach_resolve store_model None [] (request [(''records'', JArr [])] JNull) stored
     = (Inl RecordsNotArray, request [(''records'', JArr [])] JNull, stored)
   \<and> updateByIdEach_resolve store_model None []
        (request [(''records'', JArr [JObj [(''_id'', JNum 1), (''val'', JStr ''a'')], JNum 5])] JNull)
        stored
     = (Inl RecordsEmptyRecord,
        request [(''records'', JArr [JObj [(''_id'', JNum 1), (''val'', JStr ''a'')], JNum 5])] JNull,
        stored)"
  using malformed_records_rejected [of "request [(''records'', JArr [])] JNull"
      store_model None "[]" stored]
    malformed_records_rejected [of
      "request [(''records'', JArr [JObj [(''_id'', JNum 1), (''val'', JStr ''a'')], JNum 5])] JNull"
      store_model None "[]" stored]
  by (simp add: request_def own_prop_def payload_error_def)

lemma build_docs_built:
  "build_docs m h records r w = (Inr docs, r', w') \<Longrightarrow> list_all2 (built m h) records docs"
proof (induction records arbitrary: r w docs)
  case Nil
  then show ?case by simp
next
  case (Cons rec records)
  show ?case
  proof (cases h)
    case None
    with Cons.prems obtain doc w1 ds where
      "model_new m rec w = (Inr doc, w1)"
      "build_docs m h records r w1 = (Inr ds, r', w')" "docs = doc # ds"
      by (auto split: prod.splits sum.splits)
    with Cons.IH [of r w1 ds] None show ?thesis
      by (auto simp: built_def)
  next
    case (Some hk)
    with Cons.prems obtain d w1 doc r1 w2 ds where
      "model_new m rec w = (Inr d, w1)" "hk d r w1 = (Inr doc, r1, w2)"
      "build_docs m h records r1 w2 = (Inr ds, r', w')" "docs = doc # ds"
      by (auto split: prod.splits sum.splits)
    with Cons.IH [of r1 w2 ds] Some show ?thesis
      by (fastforce simp: built_def)
  qed
qed

lemma start_tasks_for: "start_tasks docs = Inr ts \<Longrightarrow> list_all2 (task_for m) docs ts"
  by (induction docs arbitrary: ts) (auto simp: task_for_def split: sum.splits)

lemma step_task_for:
  "task_for m doc t \<Longrightarrow> step_task m t w = (Inr t', w') \<Longrightarrow> task_for m doc t'"
  by (cases t) (fastforce simp: task_for_def refetched_def split: sum.splits prod.splits)+

lemma run_schedule_for:
  "list_all2 (task_for m) docs ts \<Longrightarrow> run_schedule m sched ts w = (Inr ts', w')
   \<Longrightarrow> list_all2 (task_for m) docs ts'"
proof (induction sched arbitrary: ts w)
  case Nil
  then show ?case by simp
next
  case (Cons i sched)
  show ?case
  proof (cases "i < length ts")
    case True
    with Cons.prems(2) obtain t w1 where
      st: "step_task m (ts ! i) w = (Inr t, w1)"
      and run: "run_schedule m sched (ts[i := t]) w1 = (Inr ts', w')"
      by (auto split: prod.splits sum.splits)
    from Cons.prems(1) True have "task_for m (docs ! i) (ts ! i)"
      by (simp add: list_all2_conv_all_nth)
    then have "task_for m (docs ! i) t"
      using st by (rule step_task_for)
    with Cons.prems(1) have "list_all2 (task_for m) (docs[i := docs ! i]) (ts[i := t])"
      by (rule list_all2_update_cong)
    then have "list_all2 (task_for m) docs (ts[i := t])"
      by simp
    then show ?thesis
      using run by (rule Cons.IH)
  next
    case False
    with Cons.prems show ?thesis
      by (auto intro: Cons.IH)
  qed
qed

lemma run_schedule_append:
  "run_schedule m (a @ b) ts w =
     (case run_schedule m a ts w of
        (Inl e, w1) \<Rightarrow> (Inl e, w1)
      | (Inr ts1, w1) \<Rightarrow> run_schedule m b ts1 w1)"
  by (induction a arbitrary: ts w) (auto split: prod.splits sum.splits)

lemma run_schedule_length:
  "run_schedule m sched ts w = (Inr ts', w') \<Longrightarrow> length ts' = length ts"
proof (induction sched arbitrary: ts w)
  case Nil
  then show ?case by simp
next
  case (Cons i sched)
  then show ?case
    by (fastforce split: if_splits prod.splits sum.splits)
qed

lemma step_task_settled:
  "is_settled t \<Longrightarrow> step_task m t w = (Inr t', w') \<Longrightarrow> is_settled t'"
  by (cases t) (auto simp: is_settled_def)

lemma run_schedule_settled:
  "run_schedule m sched ts w = (Inr ts', w') \<Longrightarrow> j < length ts \<Longrightarrow> is_settled (ts ! j)
   \<Longrightarrow> is_settled (ts' ! j)"
proof (induction sched arbitrary: ts w)
  case Nil
  then show ?case by simp
next
  case (Cons i sched)
  show ?case
  proof (cases "i < length ts")
    case True
    with Cons.prems(1) obtain t w1 where
      st: "step_task m (ts ! i) w = (Inr t, w1)"
      and run: "run_schedule m sched (ts[i := t]) w1 = (Inr ts', w')"
      by (auto split: prod.splits sum.splits)
    have "is_settled ((ts[i := t]) ! j)"
    proof (cases "i = j")
      case True
      with Cons.prems(2,3) st show ?thesis
        by (auto intro: step_task_settled)
    next
      case False
      with Cons.prems(3) show ?thesis by simp
    qed
    with Cons.IH [OF run] Cons.prems(2) show ?thesis by simp
  next
    case False
    with Cons.prems show ?thesis
      by (auto intro: Cons.IH)
  qed
qed

lemma step_twice_settles:
  "step_task m t w = (Inr t1, w1) \<Longrightarrow> step_task m t1 w1 = (Inr t2, w2) \<Longrightarrow> is_settled t2"
  by (cases t) (auto simp: is_settled_def split: sum.splits prod.splits)

lemma run_twice_settles:
  assumes "i < length ts" and "run_schedule m [i, i] ts w = (Inr ts', w')"
  shows "is_settled (ts' ! i)"
proof -
  from assms obtain t1 w1 t2 where
    "step_task m (ts ! i) w = (Inr t1, w1)" "step_task m t1 w1 = (Inr t2, w')"
    "ts' = ts[i := t2]"
    by (auto split: prod.splits sum.splits)
  with assms(1) show ?thesis
    by (auto dest: step_twice_settles)
qed

lemma drain_Suc: "drain (Suc n) = drain n @ [n, n]"
  by (simp add: drain_def)

lemma run_drain_settles:
  "n \<le> length ts \<Longrightarrow> run_schedule m (drain n) ts w = (Inr ts', w')
   \<Longrightarrow> \<forall>j < n. is_settled (ts' ! j)"
proof (induction n arbitrary: ts' w')
  case 0
  then show ?case by simp
next
  case (Suc n)
  from Suc.prems(2) obtain ts1 w1 where
    first: "run_schedule m (drain n) ts w = (Inr ts1, w1)"
    and last: "run_schedule m [n, n] ts1 w1 = (Inr ts', w')"
    by (auto simp: drain_Suc run_schedule_append split: prod.splits sum.splits)
  from first have len: "length ts1 = length ts"
    by (rule run_schedule_length)
  from Suc.IH [OF _ first] Suc.prems(1) have before: "\<forall>j < n. is_settled (ts1 ! j)"
    by simp
  show ?case
  proof (intro allI impI)
    fix j
    assume "j < Suc n"
    show "is_settled (ts' ! j)"
    proof (cases "j = n")
      case True
      from len Suc.prems(1) have "n < length ts1" by simp
      then have "is_settled (ts' ! n)"
        using last by (rule run_twice_settles)
      with True show ?thesis by simp
    next
      case False
      with \<open>j < Suc n\<close> have "j < n" by simp
      with before len Suc.prems(1) show ?thesis
        by (intro run_schedule_settled [OF last]) simp_all
    qed
  qed
qed

lemma settled_values_refetched:
  "list_all2 (task_for m) docs ts \<Longrightarrow> \<forall>t \<in> set ts. is_settled t
   \<Longrightarrow> list_all2 (refetched m) docs (settled_values ts)"
proof (induction rule: list_all2_induct)
  case Nil
  then show ?case by (simp add: settled_values_def)
next
  case (Cons doc docs t ts)
  then show ?case
    by (cases t) (auto simp: settled_values_def task_for_def is_settled_def)
qed

lemma dependable_new:
  "dependable m h \<Longrightarrow>
     \<exists>doc w'. model_new m record w = (Inr doc, w') \<and> doc \<noteq> JUndefined \<and> doc \<noteq> JNull"
  by (simp add: dependable_def)

lemma dependable_update:
  "dependable m h \<Longrightarrow> \<exists>u w'. model_findByIdAndUpdate m i doc w = (Inr u, w')"
  by (simp add: dependable_def)

lemma dependable_find:
  "dependable m h \<Longrightarrow> \<exists>v w'. model_findById m i w = (Inr v, w')"
  by (simp add: dependable_def)

lemma dependable_hook:
  "dependable m (Some hk) \<Longrightarrow>
     \<exists>doc' r' w'. hk doc r w = (Inr doc', r', w') \<and> doc' \<noteq> JUndefined \<and> doc' \<noteq> JNull"
  by (simp add: dependable_def)

lemma build_docs_ok:
  assumes "dependable m h"
  shows "\<exists>docs r' w'. build_docs m h records r w = (Inr docs, r', w')
           \<and> (\<forall>d \<in> set docs. d \<noteq> JUndefined \<and> d \<noteq> JNull)"
proof (induction records arbitrary: r w)
  case Nil
  show ?case by simp
next
  case (Cons rec records)
  from dependable_new [OF assms, of rec w] obtain d w1 where
    new: "model_new m rec w = (Inr d, w1)" and d: "d \<noteq> JUndefined" "d \<noteq> JNull"
    by (elim exE conjE)
  show ?case
  proof (cases h)
    case None
    from Cons.IH [of r w1] obtain docs r' w' where
      rest: "build_docs m h records r w1 = (Inr docs, r', w')"
      and docs: "\<forall>d \<in> set docs. d \<noteq> JUndefined \<and> d \<noteq> JNull"
      by (elim exE conjE)
    have "build_docs m h (rec # records) r w = (Inr (d # docs), r', w')"
      using new rest None by simp
    moreover have "\<forall>x \<in> set (d # docs). x \<noteq> JUndefined \<and> x \<noteq> JNull"
      using d docs by simp
    ultimately show ?thesis by (intro exI conjI)
  next
    case (Some hk)
    with assms have "dependable m (Some hk)" by simp
    from dependable_hook [OF this, of d r w1] obtain d' r1 w2 where
      hook: "hk d r w1 = (Inr d', r1, w2)" and d': "d' \<noteq> JUndefined" "d' \<noteq> JNull"
      by (elim exE conjE)
    from Cons.IH [of r1 w2] obtain docs r' w' where
      rest: "build_docs m h records r1 w2 = (Inr docs, r', w')"
      and docs: "\<forall>d \<in> set docs. d \<noteq> JUndefined \<and> d \<noteq> JNull"
      by (elim exE conjE)
    have "build_docs m h (rec # records) r w = (Inr (d' # docs), r', w')"
      using new hook rest Some by simp
    moreover have "\<forall>x \<in> set (d' # docs). x \<noteq> JUndefined \<and> x \<noteq> JNull"
      using d' docs by simp
    ultimately show ?thesis by (intro exI conjI)
  qed
qed

lemma start_tasks_ok:
  "\<forall>d \<in> set docs. d \<noteq> JUndefined \<and> d \<noteq> JNull
   \<Longrightarrow> \<exists>ts. start_tasks docs = Inr ts \<and> (\<forall>t \<in> set ts. live t)"
proof (induction docs)
  case Nil
  then show ?case by simp
next
  case (Cons d docs)
  then obtain i where "js_get d ''_id'' = Inr i"
    using js_get_not_nullish [of d "''_id''"] by auto
  with Cons show ?case
    by (auto simp: live_def)
qed

lemma step_task_ok:
  assumes "dependable m h" and "live t"
  shows "\<exists>t' w'. step_task m t w = (Inr t', w') \<and> live t'"
proof (cases t)
  case (Updating i d)
  from dependable_update [OF assms(1), of i d w] obtain u w' where
    "model_findByIdAndUpdate m i d w = (Inr u, w')"
    by (elim exE)
  with Updating assms(2) have "step_task m t w = (Inr (Refetching d), w') \<and> live (Refetching d)"
    by (simp add: live_def)
  then show ?thesis by (intro exI)
next
  case (Refetching d)
  with assms(2) have "d \<noteq> JUndefined" "d \<noteq> JNull"
    by (simp_all add: live_def)
  from js_get_not_nullish [OF this, of "''_id''"] obtain i where i: "js_get d ''_id'' = Inr i"
    by (elim exE)
  from dependable_find [OF assms(1), of i w] obtain v w' where
    "model_findById m i w = (Inr v, w')"
    by (elim exE)
  with Refetching i have "step_task m t w = (Inr (Settled v), w') \<and> live (Settled v)"
    by (simp add: live_def)
  then show ?thesis by (intro exI)
next
  case (Settled v)
  then have "step_task m t w = (Inr (Settled v), w) \<and> live (Settled v)"
    by (simp add: live_def)
  then show ?thesis by (intro exI)
qed

lemma live_update:
  assumes "\<forall>t \<in> set ts. live t" and "live t'"
  shows "\<forall>t \<in> set (ts[i := t']). live t"
proof
  fix t
  assume "t \<in> set (ts[i := t'])"
  then have "t \<in> insert t' (set ts)"
    using set_update_subset_insert [of ts i t'] by (rule subsetD [rotated])
  with assms show "live t" by auto
qed

lemma run_schedule_ok:
  assumes "dependable m h"
  shows "\<forall>t \<in> set ts. live t \<Longrightarrow> \<exists>ts' w'. run_schedule m sched ts w = (Inr ts', w')"
proof (induction sched arbitrary: ts w)
  case Nil
  show ?case by simp
next
  case (Cons i sched)
  show ?case
  proof (cases "i < length ts")
    case True
    with Cons.prems have "live (ts ! i)" by simp
    from step_task_ok [OF assms this, of w] obtain t' w1 where
      st: "step_task m (ts ! i) w = (Inr t', w1)" and t': "live t'"
      by (elim exE conjE)
    from Cons.prems t' have "\<forall>t \<in> set (ts[i := t']). live t"
      by (rule live_update)
    from Cons.IH [OF this, of w1] obtain ts' w' where
      "run_schedule m sched (ts[i := t']) w1 = (Inr ts', w')"
      by (elim exE)
    with st True have "run_schedule m (i # sched) ts w = (Inr ts', w')"
      by simp
    then show ?thesis by (intro exI)
  next
    case False
    from Cons.IH [OF Cons.prems, of w] obtain ts' w' where
      "run_schedule m sched ts w = (Inr ts', w')"
      by (elim exE)
    with False have "run_schedule m (i # sched) ts w = (Inr ts', w')"
      by simp
    then show ?thesis by (intro exI)
  qed
qed

lemma store_model_dependable: "dependable store_model None"
  by (auto simp: dependable_def store_model_def split: jsval.splits list.splits)

text \<open>
  C7. The input is a non-empty list that passes the checks of the resolver. Whenever the
  resolver returns, under any schedule, the result is
  \<^verbatim>\<open>{ records, updatedCount }\<close> where \<^verbatim>\<open>updatedCount\<close> is the length of the input,
  whatever the store did with the updates, and \<^verbatim>\<open>records\<close> has one entry per input
  record in the order of the input: the i-th entry is what the fetch returned for the
  document built from the i-th record. And the resolver does return when the model and
  the hook do not reject.
\<close>

theorem update_each_result:
  assumes "own_prop (args r) ''records'' = JArr recordData" and "recordData \<noteq> []"
    and "validate_records recordData = Inr ()"
  shows "(dependable m h \<longrightarrow>
            (\<exists>result r' w'. updateByIdEach_resolve m h sched r w = (Inr result, r', w')))
    \<and> (\<forall>result r' w'. updateByIdEach_resolve m h sched r w = (Inr result, r', w') \<longrightarrow>
          (\<exists>records docs.
              result = JObj [(''records'', JArr records),
                             (''updatedCount'', JNum (int (length recordData)))]
              \<and> length records = length recordData
              \<and> list_all2 (built m h) recordData docs
              \<and> list_all2 (refetched m) docs records))"
proof (intro conjI impI allI)
  assume dep: "dependable m h"
  from build_docs_ok [OF dep, of recordData r w] obtain docs r1 w1 where
    b: "build_docs m h recordData r w = (Inr docs, r1, w1)"
      "\<forall>d \<in> set docs. d \<noteq> JUndefined \<and> d \<noteq> JNull"
    by blast
  from start_tasks_ok [OF b(2)] obtain ts where s: "start_tasks docs = Inr ts" "\<forall>t \<in> set ts. live t"
    by blast
  from run_schedule_ok [OF dep s(2), of "sched @ drain (length ts)" w1] obtain ts' w2 where
    "run_schedule m (sched @ drain (length ts)) ts w1 = (Inr ts', w2)"
    by blast
  with assms b(1) s(1)
  show "\<exists>result r' w'. updateByIdEach_resolve m h sched r w = (Inr result, r', w')"
    by (simp add: updateByIdEach_resolve_def)
next
  fix result r' w'
  assume res: "updateByIdEach_resolve m h sched r w = (Inr result, r', w')"
  with assms obtain docs r1 w1 ts ts' where
    b: "build_docs m h recordData r w = (Inr docs, r1, w1)"
    and s: "start_tasks docs = Inr ts"
    and run: "run_schedule m (sched @ drain (length ts)) ts w1 = (Inr ts', w')"
    and result: "result = JObj [(''records'', JArr (settled_values ts')),
                                (''updatedCount'', JNum (int (length docs)))]"
    by (auto simp: updateByIdEach_resolve_def split: prod.splits sum.splits)
  from b have built: "list_all2 (built m h) recordData docs"
    by (rule build_docs_built)
  from run obtain ts1 w3 where
    first: "run_schedule m sched ts w1 = (Inr ts1, w3)"
    and last: "run_schedule m (drain (length ts)) ts1 w3 = (Inr ts', w')"
    by (auto simp: run_schedule_append split: prod.splits sum.splits)
  from first have len1: "length ts1 = length ts"
    by (rule run_schedule_length)
  from last have len2: "length ts' = length ts1"
    by (rule run_schedule_length)
  from run_drain_settles [OF _ last] len1 len2 have "\<forall>j < length ts'. is_settled (ts' ! j)"
    by simp
  then have settled: "\<forall>t \<in> set ts'. is_settled t"
    by (auto simp: in_set_conv_nth)
  from start_tasks_for [OF s] have "list_all2 (task_for m) docs ts" .
  then have "list_all2 (task_for m) docs ts'"
    using run by (rule run_schedule_for)
  then have refetched: "list_all2 (refetched m) docs (settled_values ts')"
    using settled by (rule settled_values_refetched)
  from built have "length recordData = length docs"
    by (rule list_all2_lengthD)
  moreover from refetched have "length docs = length (settled_values ts')"
    by (rule list_all2_lengthD)
  ultimately have "length (settled_values ts') = length recordData"
    "length docs = length recordData"
    by simp_all
  with result built refetched
  show "\<exists>records docs.
           result = JObj [(''records'', JArr records),
                          (''updatedCount'', JNum (int (length recordData)))]
           \<and> length records = length recordData
           \<and> list_all2 (built m h) recordData docs
           \<and> list_all2 (refetched m) docs records"
    by auto
qed

text \<open>
  Two records are updated, the updates running in the order second, first. With the ids
  1 and 2, both stored, the result has the two updated records in the order of the
  input; with the ids 3 and 2, of which the first is not stored, no row changes for it
  and the count is 2 all the same.
\<close>

theorem update_each_result_witness:
  "updateByIdEach_resolve store_model None [1, 0, 0, 1] (update_request 1) stored
     = (Inr (JObj [(''records'', JArr [JObj [(''_id'', JNum 1), (''val'', JStr ''a'')],
                                        JObj [(''_id'', JNum 2), (''val'', JStr ''b'')]]),
                   (''updatedCount'', JNum 2)]),
        update_request 1,
        [JObj [(''_id'', JNum 1), (''val'', JStr ''a'')], JObj [(''_id'', JNum 2), (''val'', JStr ''b'')]])
   \<and> updateByIdEach_resolve store_model None [] (update_request 3) stored
     = (Inr (JObj [(''records'', JArr [JNull, JObj [(''_id'', JNum 2), (''val'', JStr ''b'')]]),
                   (''updatedCount'', JNum 2)]),
        update_request 3, stored)"
  using update_each_result [of "update_request 1"
      "[JObj [(''_id'', JNum 1), (''val'', JStr ''a'')], JObj [(''_id'', JNum 2), (''val'', JStr ''b'')]]"
      store_model None "[1, 0, 0, 1]" stored]
    update_each_result [of "update_request 3"
      "[JObj [(''_id'', JNum 3), (''val'', JStr ''a'')], JObj [(''_id'', JNum 2), (''val'', JStr ''b'')]]"
      store_model None "[]" stored]
    store_model_dependable
  by (simp add: update_request_def request_def own_prop_def updateByIdEach_resolve_def
      store_model_def stored_def drain_def settled_values_def)

end
